theory Spec2Isabelle
  imports Complex_Main "HOL-Library.Log_Nat" "HOL-Library.Word" "HOL-Library.Multiset"
begin

section \<open>JavaScript numbers\<close>

text \<open>
  A JavaScript \<^verbatim>\<open>number\<close> is an IEEE 754 double. The finite doubles are modelled as the
  rationals they denote; every arithmetic operation computes the exact rational result and
  rounds it to the nearest double, ties to even (\<open>fl\<close>). The exponent range is not bounded
  (no overflow to Infinity, no subnormals) and NaN is not represented: the model is the
  program's arithmetic on finite values of ordinary magnitude.
\<close>

type_synonym number = rat

definition pow2 :: "int \<Rightarrow> rat" where
  "pow2 e = (if 0 \<le> e then 2 ^ nat e else 1 / 2 ^ nat (- e))"

text \<open>\<open>ilog2 x\<close> is the binary exponent of a positive \<open>x\<close>: \<open>2^e \<le> x < 2^(e+1)\<close>.\<close>

definition ilog2 :: "rat \<Rightarrow> int" where
  "ilog2 x = (if 1 \<le> x then bitlen \<lfloor>x\<rfloor> - 1 else - bitlen (\<lceil>1 / x\<rceil> - 1))"

text \<open>Round to the nearest integer, ties to the even one.\<close>

definition rne :: "rat \<Rightarrow> int" where
  "rne q = (let n = \<lfloor>q\<rfloor>; f = q - of_int n in
     if f < 1 / 2 then n else if 1 / 2 < f then n + 1 else if even n then n else n + 1)"

text \<open>Round to the nearest double: 53 significant bits, so one unit in the last place of
  \<open>x\<close> is \<open>2^(e - 52)\<close>.\<close>

definition fl :: "rat \<Rightarrow> number" where
  "fl x = (if x = 0 then 0 else
     let u = pow2 (ilog2 \<bar>x\<bar> - 52) in of_int (rne (x / u)) * u)"

definition js_add :: "number \<Rightarrow> number \<Rightarrow> number" where
  "js_add a b = fl (a + b)"

definition js_sub :: "number \<Rightarrow> number \<Rightarrow> number" where
  "js_sub a b = fl (a - b)"

definition js_mul :: "number \<Rightarrow> number \<Rightarrow> number" where
  "js_mul a b = fl (a * b)"

definition js_div :: "number \<Rightarrow> number \<Rightarrow> number" where
  "js_div a b = fl (a / b)"

text \<open>
  \<^verbatim>\<open>x.toFixed(f)\<close> prints the decimal \<open>n / 10^f\<close> for the integer \<open>n\<close> that makes it
  closest to \<open>x\<close>, the larger \<open>n\<close> on a tie, after moving the sign of a negative \<open>x\<close> to
  the front. \<open>toFixed_value\<close> is the rational that this string denotes. From \<open>10^21\<close> on
  \<^verbatim>\<open>toFixed\<close> prints \<^verbatim>\<open>String(x)\<close> instead, which reads back as \<open>x\<close>. The unary plus of
  \<^verbatim>\<open>+(x).toFixed(f)\<close> reads the string as a number, that is, rounds its value to a double.
\<close>

definition toFixed_value :: "number \<Rightarrow> nat \<Rightarrow> rat" where
  "toFixed_value x f = sgn x * (of_int \<lfloor>\<bar>x\<bar> * 10 ^ f + 1 / 2\<rfloor> / 10 ^ f)"

definition toFixed_num :: "number \<Rightarrow> nat \<Rightarrow> number" where
  "toFixed_num x f = (if 10 ^ 21 \<le> \<bar>x\<bar> then x else fl (toFixed_value x f))"

section \<open>The data model\<close>

record InstallRecord =
  date :: string
  installDate :: string
  soldDate :: string
  invoiceAmount :: number
  customerName :: string
  installerName :: string
  soldByTech :: string

definition TECHS :: "string list" where
  "TECHS = [''Austin'', ''Adam'', ''Tim'', ''Kaleb'', ''Hunter'', ''Miguel'']"

definition INSTALLERS :: "string list" where
  "INSTALLERS = [''Mike'', ''Steven'', ''Bubba'', ''Josh'']"

datatype GroupMode = Tech | Installer

text \<open>The grand-total object \<^verbatim>\<open>{ count, total, commission }\<close>; a \<^verbatim>\<open>SummaryRow\<close> has the
  same three fields and a \<^verbatim>\<open>name\<close>.\<close>

record Totals =
  count :: nat
  total :: number
  commission :: number

record SummaryRow = Totals +
  name :: string

record Group =
  label :: string
  rows :: "InstallRecord list"
  subtotal :: number

section \<open>The reporting aggregator\<close>

text \<open>
  \<^verbatim>\<open>Array.prototype.sort(cmp)\<close> is a stable sort: for a comparator that is a consistent
  ordering its result is the one stable arrangement, which insertion from the right end
  computes. (For an inconsistent comparator ECMAScript leaves the order to the engine.)
  An element goes before the first later element that it does not exceed.
\<close>

fun insert_by :: "('a \<Rightarrow> 'a \<Rightarrow> number) \<Rightarrow> 'a \<Rightarrow> 'a list \<Rightarrow> 'a list" where
  "insert_by cmp a [] = [a]"
| "insert_by cmp a (b # bs) =
     (if cmp a b \<le> 0 then a # b # bs else b # insert_by cmp a bs)"

definition sort_by :: "('a \<Rightarrow> 'a \<Rightarrow> number) \<Rightarrow> 'a list \<Rightarrow> 'a list" where
  "sort_by cmp xs = foldr (insert_by cmp) xs []"

definition filtered ::
  "InstallRecord list \<Rightarrow> string list \<Rightarrow> string list \<Rightarrow> InstallRecord list" where
  "filtered allData selectedTechs selectedInstallers =
     filter (\<lambda>d. soldByTech d \<in> set selectedTechs \<and> installerName d \<in> set selectedInstallers)
       allData"

definition keyFor :: "GroupMode \<Rightarrow> InstallRecord \<Rightarrow> string" where
  "keyFor groupMode r = (case groupMode of Tech \<Rightarrow> soldByTech r | Installer \<Rightarrow> installerName r)"

text \<open>A \<^verbatim>\<open>Map<string, V>\<close> keeps its keys in insertion order: an association list with
  distinct keys, where \<^verbatim>\<open>set\<close> on a present key replaces the value in place.\<close>

type_synonym 'v strmap = "(string \<times> 'v) list"

definition Map_has :: "'v strmap \<Rightarrow> string \<Rightarrow> bool" where
  "Map_has m k = (k \<in> set (map fst m))"

fun Map_set :: "'v strmap \<Rightarrow> string \<Rightarrow> 'v \<Rightarrow> 'v strmap" where
  "Map_set [] k v = [(k, v)]"
| "Map_set ((k', v') # m) k v =
     (if k' = k then (k', v) # m else (k', v') # Map_set m k v)"

definition Map_get :: "'v strmap \<Rightarrow> string \<Rightarrow> 'v option" where
  "Map_get m k = map_of m k"

definition Map_keys :: "'v strmap \<Rightarrow> string list" where
  "Map_keys m = map fst m"

text \<open>One turn of \<^verbatim>\<open>for (const r of filtered)\<close>: create the key's array if it is missing,
  then push the record onto it.\<close>

definition group_step ::
  "GroupMode \<Rightarrow> InstallRecord list strmap \<Rightarrow> InstallRecord \<Rightarrow> InstallRecord list strmap" where
  "group_step groupMode m r =
     (let k = keyFor groupMode r;
          m1 = (if \<not> Map_has m k then Map_set m k [] else m)
      in case Map_get m1 k of
           Some rs \<Rightarrow> Map_set m1 k (rs @ [r])
         | None \<Rightarrow> m1)"

definition group_map :: "GroupMode \<Rightarrow> InstallRecord list \<Rightarrow> InstallRecord list strmap" where
  "group_map groupMode rs = foldl (group_step groupMode) [] rs"

text \<open>\<^verbatim>\<open>rows.reduce((sum, r) => sum + r.invoiceAmount, 0)\<close>\<close>

definition sum_amounts :: "InstallRecord list \<Rightarrow> number" where
  "sum_amounts rs = foldl (\<lambda>sum r. js_add sum (invoiceAmount r)) 0 rs"

text \<open>\<^verbatim>\<open>String.prototype.localeCompare\<close> is the host's collation; it is a parameter.\<close>

definition grouped ::
  "(string \<Rightarrow> string \<Rightarrow> number) \<Rightarrow> GroupMode \<Rightarrow> InstallRecord list \<Rightarrow> Group list" where
  "grouped localeCompare groupMode flt =
     (let m = group_map groupMode flt;
          groupLabels = sort_by localeCompare (Map_keys m)
      in map (\<lambda>l.
            let rs = sort_by (\<lambda>a b. js_sub (invoiceAmount b) (invoiceAmount a))
                       (case Map_get m l of Some v \<Rightarrow> v | None \<Rightarrow> []);
                st = sum_amounts rs
            in \<lparr>label = l, rows = rs, subtotal = st\<rparr>) groupLabels)"

text \<open>The body shared by \<^verbatim>\<open>installerSummary\<close> and \<^verbatim>\<open>techSummary\<close>, which differ in the
  rate only.\<close>

definition summarize :: "number \<Rightarrow> Group list \<Rightarrow> SummaryRow list" where
  "summarize rate gs =
     sort_by (\<lambda>a b. js_sub (total b) (total a))
       (map (\<lambda>g. \<lparr>count = length (rows g), total = subtotal g,
                   commission = toFixed_num (js_mul (subtotal g) rate) 2,
                   name = label g\<rparr>) gs)"

definition installerSummary :: "bool \<Rightarrow> GroupMode \<Rightarrow> Group list \<Rightarrow> SummaryRow list" where
  "installerSummary useRange groupMode gs =
     (if \<not> (useRange \<and> groupMode = Installer) then [] else summarize (fl (75 / 1000)) gs)"

definition techSummary :: "bool \<Rightarrow> GroupMode \<Rightarrow> Group list \<Rightarrow> SummaryRow list" where
  "techSummary useRange groupMode gs =
     (if \<not> (useRange \<and> groupMode = Tech) then [] else summarize (fl (5 / 100)) gs)"

definition summaryRows :: "bool \<Rightarrow> GroupMode \<Rightarrow> Group list \<Rightarrow> SummaryRow list" where
  "summaryRows useRange groupMode gs =
     (if useRange \<and> groupMode = Installer then installerSummary useRange groupMode gs
      else if useRange \<and> groupMode = Tech then techSummary useRange groupMode gs
      else [])"

definition grand :: "SummaryRow list \<Rightarrow> Totals" where
  "grand srs =
     (if length srs \<noteq> 0
      then foldl (\<lambda>acc r. \<lparr>count = count acc + count r,
                            total = js_add (total acc) (total r),
                            commission = js_add (commission acc) (commission r)\<rparr>)
             \<lparr>count = 0, total = 0, commission = 0\<rparr> srs
      else \<lparr>count = 0, total = 0, commission = 0\<rparr>)"

text \<open>\<^verbatim>\<open>const commissionRate = groupMode === "tech" ? 0.05 : 0.075\<close>; a decimal literal
  denotes the nearest double.\<close>

definition commissionRate :: "GroupMode \<Rightarrow> number" where
  "commissionRate groupMode = (case groupMode of Tech \<Rightarrow> fl (5 / 100) | Installer \<Rightarrow> fl (75 / 1000))"

text \<open>A collation for examples: the order of the character codes, the shorter string
  first when one is a prefix of the other.\<close>

fun codeCompare :: "string \<Rightarrow> string \<Rightarrow> number" where
  "codeCompare [] [] = 0"
| "codeCompare [] (y # ys) = - 1"
| "codeCompare (x # xs) [] = 1"
| "codeCompare (x # xs) (y # ys) =
     (if (of_char x :: nat) < of_char y then - 1
      else if (of_char y :: nat) < of_char x then 1
      else codeCompare xs ys)"


text \<open>An example record.\<close>

definition install :: "string \<Rightarrow> string \<Rightarrow> number \<Rightarrow> InstallRecord" where
  "install tech inst amount =
     \<lparr>date = ''2024-01-10'', installDate = ''2024-01-10'', soldDate = ''2024-01-05'',
      invoiceAmount = amount, customerName = ''Baker, Amy'', installerName = inst,
      soldByTech = tech\<rparr>"

section \<open>CSV export\<close>

text \<open>
  \<^verbatim>\<open>String(x)\<close> for a number \<open>x\<close> (ECMAScript, Number::toString): the digits are those of the
  integer \<open>s\<close> with the fewest digits \<open>k\<close> such that \<open>s \<times> 10^(n - k)\<close> still rounds to \<open>x\<close>
  (the closest such \<open>s\<close> if several); seventeen digits always suffice. They are laid out
  plainly for \<open>-6 < n \<le> 21\<close> and in exponent notation otherwise.
\<close>

definition pow10 :: "int \<Rightarrow> rat" where
  "pow10 e = (if 0 \<le> e then 10 ^ nat e else 1 / 10 ^ nat (- e))"

text \<open>The number of decimal digits of a positive integer.\<close>

function declen :: "int \<Rightarrow> int" where
  "declen n = (if 0 < n then declen (n div 10) + 1 else 0)"
  by pat_completeness auto
termination
  by (relation "measure nat") auto

text \<open>The decimal exponent of a positive \<open>x\<close>: \<open>10^e \<le> x < 10^(e+1)\<close>.\<close>

definition ilog10 :: "rat \<Rightarrow> int" where
  "ilog10 x = (if 1 \<le> x then declen \<lfloor>x\<rfloor> - 1 else - declen (\<lceil>1 / x\<rceil> - 1))"

function digits :: "int \<Rightarrow> string" where
  "digits n = (if n < 10 then [char_of (48 + n)]
               else digits (n div 10) @ [char_of (48 + n mod 10)])"
  by pat_completeness auto
termination
  by (relation "measure nat") auto

fun shortest :: "nat \<Rightarrow> nat \<Rightarrow> rat \<Rightarrow> int \<Rightarrow> int \<times> int" where
  "shortest 0 k x n0 = (\<lfloor>x / pow10 (n0 - int k)\<rfloor>, n0 - int k)"
| "shortest (Suc fuel) k x n0 =
     (let sc = pow10 (n0 - int k);
          lo = \<lfloor>x / sc\<rfloor>;
          hi = lo + 1;
          oklo = (fl (of_int lo * sc) = x);
          okhi = (fl (of_int hi * sc) = x)
      in if oklo \<and> okhi
         then (if x - of_int lo * sc \<le> of_int hi * sc - x then (lo, n0 - int k)
               else (hi, n0 - int k))
         else if oklo then (lo, n0 - int k)
         else if okhi then (hi, n0 - int k)
         else shortest fuel (Suc k) x n0)"

definition strip_zeros :: "string \<Rightarrow> string" where
  "strip_zeros ds = rev (dropWhile (\<lambda>c. c = CHR ''0'') (rev ds))"

definition Number_toString_pos :: "number \<Rightarrow> string" where
  "Number_toString_pos x =
     (let (s, e) = shortest 17 1 x (ilog10 x + 1);
          ds = digits s;
          n = e + int (length ds);
          d = strip_zeros ds;
          k = int (length d)
      in if k \<le> n \<and> n \<le> 21 then d @ replicate (nat (n - k)) CHR ''0''
         else if 0 < n \<and> n \<le> 21 then take (nat n) d @ ''.'' @ drop (nat n) d
         else if - 6 < n \<and> n \<le> 0 then ''0.'' @ replicate (nat (- n)) CHR ''0'' @ d
         else (if k = 1 then d else take 1 d @ ''.'' @ drop 1 d)
              @ ''e'' @ (if n - 1 < 0 then ''-'' else ''+'') @ digits \<bar>n - 1\<bar>)"

definition Number_toString :: "number \<Rightarrow> string" where
  "Number_toString x =
     (if x = 0 then ''0''
      else if x < 0 then ''-'' @ Number_toString_pos (- x)
      else Number_toString_pos x)"

text \<open>A cell of the table is a string or a number (\<^verbatim>\<open>(string | number)[][]\<close>).\<close>

datatype cell = Str string | Num number

definition String_of :: "cell \<Rightarrow> string" where
  "String_of c = (case c of Str s \<Rightarrow> s | Num x \<Rightarrow> Number_toString x)"

definition dquote :: char where
  "dquote = CHR 0x22"

definition comma :: char where
  "comma = CHR '',''"

definition newline :: char where
  "newline = CHR 0x0A"

text \<open>\<^verbatim>\<open>s.replace(/"/g, '""')\<close>\<close>

definition escape_quotes :: "string \<Rightarrow> string" where
  "escape_quotes s = concat (map (\<lambda>c. if c = dquote then [dquote, dquote] else [c]) s)"

definition csv_cell :: "cell \<Rightarrow> string" where
  "csv_cell c = [dquote] @ escape_quotes (String_of c) @ [dquote]"

text \<open>\<^verbatim>\<open>Array.prototype.join\<close>\<close>

fun join :: "string \<Rightarrow> string list \<Rightarrow> string" where
  "join sep [] = []"
| "join sep [x] = x"
| "join sep (x # y # ys) = x @ sep @ join sep (y # ys)"

definition headers :: "cell list" where
  "headers = [Str ''Group'', Str ''Sales Tech'', Str ''Invoice $$'', Str ''COMMISSION'',
              Str ''Customer'', Str ''Installer'', Str ''Sold Date'', Str ''Install Date'']"

definition record_line :: "GroupMode \<Rightarrow> Group \<Rightarrow> InstallRecord \<Rightarrow> cell list" where
  "record_line groupMode g r =
     (let commission = js_mul (invoiceAmount r) (commissionRate groupMode)
      in [Str (label g), Str (soldByTech r), Num (invoiceAmount r),
          Num (toFixed_num commission 2), Str (customerName r), Str (installerName r),
          Str (soldDate r), Str (installDate r)])"

definition subtotal_line :: "GroupMode \<Rightarrow> Group \<Rightarrow> cell list" where
  "subtotal_line groupMode g =
     [Str (''Subtotal for '' @ label g), Str '''', Num (subtotal g),
      Num (toFixed_num (js_mul (subtotal g) (commissionRate groupMode)) 2),
      Str '''', Str '''', Str '''', Str '''']"

text \<open>The two nested \<^verbatim>\<open>for\<close> loops that fill \<^verbatim>\<open>lines\<close>.\<close>

definition csv_lines :: "GroupMode \<Rightarrow> Group list \<Rightarrow> cell list list" where
  "csv_lines groupMode gs =
     headers # concat (map (\<lambda>g. map (record_line groupMode g) (rows g) @ [subtotal_line groupMode g]) gs)"

definition groupMode_string :: "GroupMode \<Rightarrow> string" where
  "groupMode_string groupMode = (case groupMode of Tech \<Rightarrow> ''tech'' | Installer \<Rightarrow> ''installer'')"

text \<open>\<^verbatim>\<open>exportCSV\<close> hands the browser a file to download: its name and its text.\<close>

record Download =
  download :: string
  content :: string

definition exportCSV ::
  "GroupMode \<Rightarrow> bool \<Rightarrow> string \<Rightarrow> string \<Rightarrow> string \<Rightarrow> Group list \<Rightarrow> Download" where
  "exportCSV groupMode useRange rangeStart rangeEnd day gs =
     (let lines = csv_lines groupMode gs;
          csv = join [newline] (map (\<lambda>r. join [comma] (map csv_cell r)) lines)
      in \<lparr>download = ''installs_''
             @ (if useRange then rangeStart @ ''_to_'' @ rangeEnd else day)
             @ ''_'' @ groupMode_string groupMode @ ''.csv'',
          content = csv\<rparr>)"

text \<open>
  Reading the file back, for the round trip: a reader of CSV text in which every field is
  quoted. Inside a field a doubled quote stands for one quote; a single quote ends the
  field, and a comma, a line feed or the end of the text must follow it.
\<close>

datatype reader_state = FieldStart | InField | QuoteSeen

record reader =
  state :: reader_state
  field :: string
  line :: "string list"
  table :: "string list list"

definition read_char :: "reader option \<Rightarrow> char \<Rightarrow> reader option" where
  "read_char ro c =
     (case ro of
        None \<Rightarrow> None
      | Some r \<Rightarrow>
          (case state r of
             FieldStart \<Rightarrow> if c = dquote then Some (r\<lparr>state := InField, field := []\<rparr>) else None
           | InField \<Rightarrow>
               if c = dquote then Some (r\<lparr>state := QuoteSeen\<rparr>)
               else Some (r\<lparr>field := field r @ [c]\<rparr>)
           | QuoteSeen \<Rightarrow>
               if c = dquote then Some (r\<lparr>state := InField, field := field r @ [dquote]\<rparr>)
               else if c = comma
               then Some (r\<lparr>state := FieldStart, field := [], line := line r @ [field r]\<rparr>)
               else if c = newline
               then Some (r\<lparr>state := FieldStart, field := [], line := [],
                            table := table r @ [line r @ [field r]]\<rparr>)
               else None))"

definition read_csv :: "string \<Rightarrow> string list list option" where
  "read_csv text =
     (case foldl read_char (Some \<lparr>state = FieldStart, field = [], line = [], table = []\<rparr>) text of
        None \<Rightarrow> None
      | Some r \<Rightarrow>
          (case state r of
             QuoteSeen \<Rightarrow> Some (table r @ [line r @ [field r]])
           | FieldStart \<Rightarrow> if line r = [] \<and> table r = [] then Some [] else None
           | InField \<Rightarrow> None))"

text \<open>Reading one cell back: take the outer quotes off and undo the doubling.\<close>

definition unquote :: "string \<Rightarrow> string option" where
  "unquote s = (case read_csv s of Some [[f]] \<Rightarrow> Some f | _ \<Rightarrow> None)"

section \<open>Dates\<close>

text \<open>
  A \<^verbatim>\<open>Date\<close> holds a time value, milliseconds since the epoch in UTC. The host's time
  zone is a parameter, \<open>tz\<close>: the minutes that local time is ahead of UTC (taken as
  constant, so without daylight-saving changes). Days are counted from 1970-01-01 in the
  proleptic Gregorian calendar.
\<close>

definition msPerDay :: int where
  "msPerDay = 86400000"

definition days_from_civil :: "int \<Rightarrow> int \<Rightarrow> int \<Rightarrow> int" where
  "days_from_civil y m d =
     (let y1 = (if m \<le> 2 then y - 1 else y);
          era = y1 div 400;
          yoe = y1 - era * 400;
          doy = (153 * (if m > 2 then m - 3 else m + 9) + 2) div 5 + d - 1;
          doe = yoe * 365 + yoe div 4 - yoe div 100 + doy
      in era * 146097 + doe - 719468)"

text \<open>The inverse, in steps: the year within the 400-year era, the day within the year
  (counted from 1 March), the month (0 for March) and the day of the month.\<close>

definition year_of_era :: "int \<Rightarrow> int" where
  "year_of_era doe = (doe - doe div 1460 + doe div 36524 - doe div 146096) div 365"

definition day_of_year :: "int \<Rightarrow> int \<Rightarrow> int" where
  "day_of_year doe yoe = doe - (365 * yoe + yoe div 4 - yoe div 100)"

definition month_index :: "int \<Rightarrow> int" where
  "month_index doy = (5 * doy + 2) div 153"

definition day_of_month :: "int \<Rightarrow> int \<Rightarrow> int" where
  "day_of_month doy mp = doy - (153 * mp + 2) div 5 + 1"

definition civil_from_days :: "int \<Rightarrow> int \<times> int \<times> int" where
  "civil_from_days z =
     (let z1 = z + 719468;
          era = z1 div 146097;
          doe = z1 - era * 146097;
          yoe = year_of_era doe;
          doy = day_of_year doe yoe;
          mp = month_index doy;
          d = day_of_month doy mp;
          m = (if mp < 10 then mp + 3 else mp - 9)
      in (if m \<le> 2 then yoe + era * 400 + 1 else yoe + era * 400, m, d))"

definition leap_year :: "int \<Rightarrow> bool" where
  "leap_year y \<longleftrightarrow> y mod 4 = 0 \<and> (y mod 100 \<noteq> 0 \<or> y mod 400 = 0)"

definition days_in_month :: "int \<Rightarrow> int \<Rightarrow> int" where
  "days_in_month y m =
     (if m = 2 then (if leap_year y then 29 else 28)
      else if m = 4 \<or> m = 6 \<or> m = 9 \<or> m = 11 then 30 else 31)"

definition digit_val :: "char \<Rightarrow> int option" where
  "digit_val c = (let n = (of_char c :: int) in if 48 \<le> n \<and> n \<le> 57 then Some (n - 48) else None)"

fun number_of_digits :: "int \<Rightarrow> string \<Rightarrow> int option" where
  "number_of_digits acc [] = Some acc"
| "number_of_digits acc (c # cs) =
     (case digit_val c of None \<Rightarrow> None | Some v \<Rightarrow> number_of_digits (acc * 10 + v) cs)"

text \<open>
  The calendar date that a string \<^verbatim>\<open>YYYY-MM-DD\<close> denotes. What the program passes to
  \<^verbatim>\<open>new Date\<close> is this string followed by \<^verbatim>\<open>T00:00:00\<close>, a date-time without offset, which
  is read as local time. Any other string gives an Invalid Date here (for strings outside
  the format, and for a day beyond the month's end, the standard leaves the outcome to the
  engine; a date input yields a valid date or the empty string).
\<close>

definition parse_iso_date :: "string \<Rightarrow> (int \<times> int \<times> int) option" where
  "parse_iso_date s =
     (if length s = 10 \<and> s ! 4 = CHR ''-'' \<and> s ! 7 = CHR ''-''
      then (case (number_of_digits 0 (take 4 s), number_of_digits 0 (take 2 (drop 5 s)),
                  number_of_digits 0 (drop 8 s)) of
              (Some y, Some m, Some d) \<Rightarrow>
                if 1 \<le> m \<and> m \<le> 12 \<and> 1 \<le> d \<and> d \<le> days_in_month y m then Some (y, m, d)
                else None
            | _ \<Rightarrow> None)
      else None)"

text \<open>\<^verbatim>\<open>new Date(baseISO + "T00:00:00")\<close>: local midnight of the date, or Invalid Date.\<close>

definition Date_local_midnight :: "int \<Rightarrow> string \<Rightarrow> int option" where
  "Date_local_midnight tz baseISO =
     (case parse_iso_date baseISO of
        None \<Rightarrow> None
      | Some (y, m, d) \<Rightarrow> Some (days_from_civil y m d * msPerDay - tz * 60000))"

text \<open>\<^verbatim>\<open>getDate\<close>: the day of the month in local time.\<close>

definition getDate :: "int \<Rightarrow> int \<Rightarrow> int" where
  "getDate tz t = (case civil_from_days ((t + tz * 60000) div msPerDay) of (y, m, d) \<Rightarrow> d)"

text \<open>A time value beyond \<open>8.64 \<times> 10^15\<close> ms either side of the epoch is not a date.\<close>

definition TimeClip :: "int \<Rightarrow> int option" where
  "TimeClip t = (if \<bar>t\<bar> \<le> 8640000000000000 then Some t else None)"

text \<open>\<^verbatim>\<open>setDate(n)\<close>: day \<open>n\<close> of the local month, counting on into the neighbouring months,
  at the same local time of day.\<close>

definition setDate :: "int \<Rightarrow> int \<Rightarrow> int \<Rightarrow> int option" where
  "setDate tz t n =
     (let lt = t + tz * 60000;
          tod = lt mod msPerDay
      in case civil_from_days (lt div msPerDay) of
           (y, m, d) \<Rightarrow>
             TimeClip ((days_from_civil y m 1 + n - 1) * msPerDay + tod - tz * 60000))"

definition pad :: "nat \<Rightarrow> int \<Rightarrow> string" where
  "pad w n = (let ds = digits n in replicate (w - length ds) CHR ''0'' @ ds)"

text \<open>\<^verbatim>\<open>toISOString\<close>: the UTC date and time, the year with four digits, or with a sign and
  six outside 0..9999.\<close>

definition toISOString :: "int \<Rightarrow> string" where
  "toISOString t =
     (let tod = t mod msPerDay
      in case civil_from_days (t div msPerDay) of
           (y, m, d) \<Rightarrow>
             (if 0 \<le> y \<and> y \<le> 9999 then pad 4 y
              else (if y < 0 then ''-'' else ''+'') @ pad 6 \<bar>y\<bar>)
             @ ''-'' @ pad 2 m @ ''-'' @ pad 2 d
             @ ''T'' @ pad 2 (tod div 3600000) @ '':'' @ pad 2 (tod div 60000 mod 60)
             @ '':'' @ pad 2 (tod div 1000 mod 60) @ ''.'' @ pad 3 (tod mod 1000) @ ''Z'')"

text \<open>\<^verbatim>\<open>addDaysISO\<close>; \<open>None\<close> is the RangeError that \<^verbatim>\<open>toISOString\<close> throws for an Invalid
  Date.\<close>

definition addDaysISO :: "int \<Rightarrow> string \<Rightarrow> int \<Rightarrow> string option" where
  "addDaysISO tz baseISO deltaDays =
     (case Date_local_midnight tz baseISO of
        None \<Rightarrow> None
      | Some t \<Rightarrow>
          (case setDate tz t (getDate tz t + deltaDays) of
             None \<Rightarrow> None
           | Some t' \<Rightarrow> Some (take 10 (toISOString t'))))"

section \<open>The demo data generator\<close>

text \<open>\<^verbatim>\<open>strSeed\<close>: \<^verbatim>\<open>h = (h * 31 + str.charCodeAt(i)) | 0\<close> keeps \<open>h\<close> a 32-bit integer.\<close>

definition strSeed :: "string \<Rightarrow> int" where
  "strSeed str = \<bar>sint (foldl (\<lambda>h c. h * 31 + of_nat (of_char c)) (0 :: 32 word) str)\<bar>"

text \<open>JavaScript's \<^verbatim>\<open>%\<close> takes the sign of the dividend.\<close>

definition js_rem :: "int \<Rightarrow> int \<Rightarrow> int" where
  "js_rem a b = sgn a * (\<bar>a\<bar> mod \<bar>b\<bar>)"

text \<open>
  \<^verbatim>\<open>seededRandom(seed)\<close> returns a closure over the state \<open>s\<close>; here the state is passed
  along. The state is an integer below \<open>2^31\<close>, so the product \<open>s * 48271\<close> is below \<open>2^53\<close>
  and exact. \<open>rng s\<close> is one call of the closure: the number returned and the new state.
\<close>

definition seededRandom :: "int \<Rightarrow> int" where
  "seededRandom seed =
     (let s = js_rem seed 2147483647 in if s \<le> 0 then s + 2147483646 else s)"

definition rng :: "int \<Rightarrow> number \<times> int" where
  "rng s = (let s' = js_rem (s * 48271) 2147483647 in (js_div (of_int s') 2147483647, s'))"

text \<open>\<^verbatim>\<open>arr[Math.floor(rng() * arr.length)]\<close>; an index outside the array reads
  \<^verbatim>\<open>undefined\<close>, here \<open>None\<close>.\<close>

definition pick :: "int \<Rightarrow> 'a list \<Rightarrow> 'a option \<times> int" where
  "pick s arr =
     (case rng s of (r, s') \<Rightarrow>
        (let i = \<lfloor>js_mul r (of_nat (length arr))\<rfloor>
         in (if 0 \<le> i \<and> i < int (length arr) then Some (arr ! nat i) else None, s')))"

text \<open>A string in a template literal or a string-typed field; \<^verbatim>\<open>undefined\<close> prints as itself.\<close>

definition string_or_undefined :: "string option \<Rightarrow> string" where
  "string_or_undefined v = (case v of Some s \<Rightarrow> s | None \<Rightarrow> ''undefined'')"

definition first_names :: "string list" where
  "first_names = [''Amy'', ''Ben'', ''Chloe'', ''David'', ''Elena'', ''Frank'', ''Grace'',
     ''Hector'', ''Ivy'', ''Jake'', ''Kara'', ''Liam'', ''Maya'', ''Nolan'', ''Olivia'',
     ''Parker'', ''Quinn'', ''Riley'', ''Sofia'', ''Ty'', ''Uma'', ''Vince'', ''Wes'',
     ''Xena'', ''Yara'', ''Zane'']"

definition last_names :: "string list" where
  "last_names = [''Baker'', ''Lopez'', ''Nguyen'', ''Khan'', ''Foster'', ''Smith'',
     ''Johnson'', ''Williams'', ''Brown'', ''Jones'', ''Garcia'', ''Miller'', ''Davis'',
     ''Rodriguez'', ''Martinez'', ''Hernandez'', ''Moore'', ''Taylor'', ''Anderson'',
     ''Thomas'']"

definition randomName :: "int \<Rightarrow> string \<times> int" where
  "randomName s =
     (case pick s last_names of (l, s1) \<Rightarrow>
      case pick s1 first_names of (f, s2) \<Rightarrow>
        (string_or_undefined l @ '', '' @ string_or_undefined f, s2))"

definition dollars :: "int \<Rightarrow> number \<Rightarrow> number \<Rightarrow> number \<Rightarrow> number \<times> int" where
  "dollars s minimum maximum step =
     (let range = of_int \<lfloor>js_div (js_sub maximum minimum) step\<rfloor>
      in case rng s of (r, s') \<Rightarrow>
           (js_add minimum (js_mul (of_int \<lfloor>js_mul r (js_add range 1)\<rfloor>) step), s'))"

text \<open>\<^verbatim>\<open>-(3 + Math.floor(rng() * 26))\<close>, for the number \<open>r\<close> that \<^verbatim>\<open>rng()\<close> returned.\<close>

definition soldOffset :: "number \<Rightarrow> int" where
  "soldOffset r = - (3 + \<lfloor>js_mul r 26\<rfloor>)"

text \<open>One turn of the inner loop: the five draws in the order of the source (the offset,
  the amount, the last and the first name, the technician) and the record pushed.\<close>

definition demo_record :: "int \<Rightarrow> string \<Rightarrow> string \<Rightarrow> int \<Rightarrow> (InstallRecord \<times> int) option" where
  "demo_record tz dateISO installer s =
     (case rng s of (r, s1) \<Rightarrow>
        (case addDaysISO tz dateISO (soldOffset r) of
              None \<Rightarrow> None
            | Some sold \<Rightarrow>
                (case dollars s1 1200 5200 50 of (amount, s2) \<Rightarrow>
                 case randomName s2 of (customer, s3) \<Rightarrow>
                 case pick s3 TECHS of (tech, s4) \<Rightarrow>
                   Some (\<lparr>date = dateISO, installDate = dateISO, soldDate = sold,
                           invoiceAmount = amount, customerName = customer,
                           installerName = installer,
                           soldByTech = string_or_undefined tech\<rparr>, s4))))"

text \<open>\<^verbatim>\<open>for (let k = 0; k < installsForThisInstaller; k++)\<close>, with \<open>n\<close> turns left.\<close>

fun installer_loop ::
  "int \<Rightarrow> string \<Rightarrow> string \<Rightarrow> nat \<Rightarrow> int \<Rightarrow> InstallRecord list
     \<Rightarrow> (InstallRecord list \<times> int) option" where
  "installer_loop tz dateISO installer 0 s records = Some (records, s)"
| "installer_loop tz dateISO installer (Suc n) s records =
     (case demo_record tz dateISO installer s of
        None \<Rightarrow> None
      | Some (r, s') \<Rightarrow> installer_loop tz dateISO installer n s' (records @ [r]))"

text \<open>\<^verbatim>\<open>for (const installer of INSTALLERS)\<close>\<close>

fun installers_loop ::
  "int \<Rightarrow> string \<Rightarrow> string list \<Rightarrow> int \<Rightarrow> InstallRecord list
     \<Rightarrow> (InstallRecord list \<times> int) option" where
  "installers_loop tz dateISO [] s records = Some (records, s)"
| "installers_loop tz dateISO (installer # rest) s records =
     (case installer_loop tz dateISO installer 2 s records of
        None \<Rightarrow> None
      | Some (records', s') \<Rightarrow> installers_loop tz dateISO rest s' records')"

text \<open>\<^verbatim>\<open>fetchInstallsDemo\<close>; \<open>None\<close> when the promise rejects with \<^verbatim>\<open>addDaysISO\<close>'s RangeError.
  The simulated latency has no effect on the result.\<close>

definition fetchInstallsDemo :: "int \<Rightarrow> string \<Rightarrow> InstallRecord list option" where
  "fetchInstallsDemo tz dateISO =
     (case installers_loop tz dateISO INSTALLERS (seededRandom (strSeed dateISO)) [] of
        None \<Rightarrow> None
      | Some (records, s) \<Rightarrow> Some records)"

section \<open>JavaScript values and promises\<close>

text \<open>The values that \<^verbatim>\<open>JSON.parse\<close> yields, and \<^verbatim>\<open>undefined\<close>, which reading a missing
  property yields. The fields of an object are listed with distinct names.\<close>

datatype jsval =
    JUndefined
  | JNull
  | JBool bool
  | JNumber number
  | JString string
  | JArray "jsval list"
  | JObject "(string \<times> jsval) list"

text \<open>A thrown error, with its \<^verbatim>\<open>message\<close>; a promise is rejected with one or resolved with
  a value.\<close>

datatype thrown = Thrown (message: string)

datatype 'a outcome = Rejected thrown | Resolved 'a

definition truthy :: "jsval \<Rightarrow> bool" where
  "truthy v = (case v of
       JUndefined \<Rightarrow> False | JNull \<Rightarrow> False | JBool b \<Rightarrow> b | JNumber x \<Rightarrow> x \<noteq> 0
     | JString s \<Rightarrow> s \<noteq> [] | JArray xs \<Rightarrow> True | JObject fs \<Rightarrow> True)"

text \<open>\<^verbatim>\<open>a || b\<close>\<close>

definition or_else :: "jsval \<Rightarrow> jsval \<Rightarrow> jsval" where
  "or_else a b = (if truthy a then a else b)"

text \<open>Reading a property of a value that is neither \<^verbatim>\<open>null\<close> nor \<^verbatim>\<open>undefined\<close>, for the
  names this program reads (none of them an array index or a function): an own field of an
  object, the \<^verbatim>\<open>length\<close> of an array or a string, and \<^verbatim>\<open>undefined\<close> otherwise.\<close>

definition property :: "jsval \<Rightarrow> string \<Rightarrow> jsval" where
  "property v p = (case v of
       JObject fs \<Rightarrow> (case map_of fs p of Some x \<Rightarrow> x | None \<Rightarrow> JUndefined)
     | JArray xs \<Rightarrow> if p = ''length'' then JNumber (of_nat (length xs)) else JUndefined
     | JString s \<Rightarrow> if p = ''length'' then JNumber (of_nat (length s)) else JUndefined
     | _ \<Rightarrow> JUndefined)"

text \<open>\<^verbatim>\<open>v.p\<close> throws a TypeError on \<^verbatim>\<open>null\<close> and \<^verbatim>\<open>undefined\<close>; \<^verbatim>\<open>v?.p\<close> is \<^verbatim>\<open>undefined\<close>
  there.\<close>

definition get :: "jsval \<Rightarrow> string \<Rightarrow> jsval outcome" where
  "get v p =
     (if v = JUndefined \<or> v = JNull
      then Rejected (Thrown (''Cannot read properties of ''
             @ (if v = JNull then ''null'' else ''undefined'') @ '' (reading '' @ [CHR 0x27]
             @ p @ [CHR 0x27] @ '')''))
      else Resolved (property v p))"

definition opt_get :: "jsval \<Rightarrow> string \<Rightarrow> jsval" where
  "opt_get v p = (if v = JUndefined \<or> v = JNull then JUndefined else property v p)"

text \<open>The string a value becomes in a template literal.\<close>

fun to_string :: "jsval \<Rightarrow> string" where
  "to_string JUndefined = ''undefined''"
| "to_string JNull = ''null''"
| "to_string (JBool b) = (if b then ''true'' else ''false'')"
| "to_string (JNumber x) = Number_toString x"
| "to_string (JString s) = s"
| "to_string (JArray xs) =
     join '','' (map (\<lambda>x. if x = JUndefined \<or> x = JNull then [] else to_string x) xs)"
| "to_string (JObject fs) = ''[object Object]''"

text \<open>\<^verbatim>\<open>encodeURIComponent\<close>, on the bytes of the string: letters, digits and
  \<^verbatim>\<open>- _ . ! ~ * ' ( )\<close> stay, every other byte becomes \<^verbatim>\<open>%XX\<close>.\<close>

definition hex_digit :: "nat \<Rightarrow> char" where
  "hex_digit n = (if n < 10 then char_of (48 + n) else char_of (55 + n))"

definition unreserved :: "char \<Rightarrow> bool" where
  "unreserved c =
     (let n = (of_char c :: nat)
      in (48 \<le> n \<and> n \<le> 57) \<or> (65 \<le> n \<and> n \<le> 90) \<or> (97 \<le> n \<and> n \<le> 122)
         \<or> c \<in> set (''-_.!~*()'' @ [CHR 0x27]))"

definition encodeURIComponent :: "string \<Rightarrow> string" where
  "encodeURIComponent s =
     concat (map (\<lambda>c. if unreserved c then [c]
                      else [CHR ''%'', hex_digit (of_char c div 16), hex_digit (of_char c mod 16)]) s)"

section \<open>HTTP\<close>

record Request =
  request_method :: string
  url :: string
  request_headers :: "(string \<times> string) list"
  request_body :: "string option"

text \<open>What \<^verbatim>\<open>fetch\<close> resolves with: the status and the body text, read in full. A
  connection that fails, also while the body is read, is the rejected outcome.\<close>

text \<open>(The field \<open>bodyText\<close> is what \<^verbatim>\<open>res.text()\<close> resolves with.)\<close>

record Response =
  status :: nat
  bodyText :: string

definition ok :: "Response \<Rightarrow> bool" where
  "ok r \<longleftrightarrow> 200 \<le> status r \<and> status r \<le> 299"

text \<open>\<^verbatim>\<open>res.json()\<close>: the body parsed as JSON; \<^verbatim>\<open>JSON.parse\<close> is a parameter.\<close>

definition json :: "(string \<Rightarrow> jsval outcome) \<Rightarrow> Response \<Rightarrow> jsval outcome" where
  "json JSON_parse r = JSON_parse (bodyText r)"

section \<open>The proxy function\<close>

record Env =
  ST_BASE_URL :: "string option"
  ST_TENANT_ID :: "string option"
  ST_APP_KEY :: "string option"
  SERVICETITAN_CLIENT_ID :: "string option"
  SERVICETITAN_CLIENT_SECRET :: "string option"

text \<open>\<^verbatim>\<open>!v\<close> for a string that may be undefined: true when it is missing or empty.\<close>

definition absent :: "string option \<Rightarrow> bool" where
  "absent v = (case v of None \<Rightarrow> True | Some s \<Rightarrow> s = [])"

text \<open>The body of the handler's answer: a text passed on as it is, or
  \<^verbatim>\<open>JSON.stringify\<close> of a value.\<close>

datatype payload = Text string | JSON_stringify jsval

record Answer =
  statusCode :: nat
  body :: payload

definition token_request :: "string \<Rightarrow> string \<Rightarrow> Request" where
  "token_request clientId clientSecret =
     \<lparr>request_method = ''POST'', url = ''https://auth.servicetitan.io/connect/token'',
      request_headers = [(''Content-Type'', ''application/x-www-form-urlencoded'')],
      request_body = Some (''grant_type=client_credentials&client_id=''
        @ encodeURIComponent clientId @ ''&client_secret='' @ encodeURIComponent clientSecret)\<rparr>"

definition technicians_request :: "string \<Rightarrow> string \<Rightarrow> string \<Rightarrow> jsval \<Rightarrow> Request" where
  "technicians_request baseUrl tenantId appKey token =
     \<lparr>request_method = ''GET'',
      url = baseUrl @ ''/settings/v2/tenant/'' @ tenantId
            @ ''/technicians?active=true&page=1&pageSize=200'',
      request_headers = [(''Authorization'', ''Bearer '' @ to_string token),
                         (''ST-App-Key'', appKey)],
      request_body = None\<rparr>"

definition missing_env_message :: string where
  "missing_env_message = ''Missing env vars. Need ST_BASE_URL, ST_TENANT_ID, ST_APP_KEY, SERVICETITAN_CLIENT_ID, SERVICETITAN_CLIENT_SECRET.''"

definition success_body :: "string \<Rightarrow> jsval \<Rightarrow> jsval" where
  "success_body tenantId data =
     JObject [(''pathUsed'', JString (''/settings/v2/tenant/'' @ tenantId @ ''/technicians'')),
              (''authMode'', JString ''bearer+appkey''),
              (''count'', or_else (opt_get (opt_get data ''data'') ''length'') (JNumber 0)),
              (''technicians'', or_else (opt_get data ''data'') (JArray []))]"

text \<open>
  The \<^verbatim>\<open>try\<close> block of the handler, from the first \<^verbatim>\<open>fetch\<close> on. The result is
  the list of the requests made, in order, and what the block returned or threw.
\<close>

definition handler_try ::
  "(Request \<Rightarrow> Response outcome) \<Rightarrow> (string \<Rightarrow> jsval outcome) \<Rightarrow>
     string \<Rightarrow> string \<Rightarrow> string \<Rightarrow> string \<Rightarrow> string \<Rightarrow> Request list \<times> Answer outcome" where
  "handler_try fetch JSON_parse baseUrl tenantId appKey clientId clientSecret =
     (let treq = token_request clientId clientSecret
      in case fetch treq of
           Rejected err \<Rightarrow> ([treq], Rejected err)
         | Resolved tokenResp \<Rightarrow>
             if \<not> ok tokenResp
             then ([treq], Resolved \<lparr>statusCode = status tokenResp, body = Text (bodyText tokenResp)\<rparr>)
             else (case json JSON_parse tokenResp of
                     Rejected err \<Rightarrow> ([treq], Rejected err)
                   | Resolved tokenJson \<Rightarrow>
                       (case get tokenJson ''access_token'' of
                          Rejected err \<Rightarrow> ([treq], Rejected err)
                        | Resolved token \<Rightarrow>
                            (let req = technicians_request baseUrl tenantId appKey token
                             in case fetch req of
                                  Rejected err \<Rightarrow> ([treq, req], Rejected err)
                                | Resolved resp \<Rightarrow>
                                    if \<not> ok resp
                                    then ([treq, req],
                                          Resolved \<lparr>statusCode = status resp, body = Text (bodyText resp)\<rparr>)
                                    else (case json JSON_parse resp of
                                            Rejected err \<Rightarrow> ([treq, req], Rejected err)
                                          | Resolved data \<Rightarrow>
                                              ([treq, req],
                                               Resolved \<lparr>statusCode = 200,
                                                 body = JSON_stringify (success_body tenantId data)\<rparr>))))))"

text \<open>The five configuration values, if none of them is missing or empty
  (\<^verbatim>\<open>!baseUrl || !tenantId || !appKey || !clientId || !clientSecret\<close> is false).\<close>

definition config :: "Env \<Rightarrow> (string \<times> string \<times> string \<times> string \<times> string) option" where
  "config env =
     (if absent (ST_BASE_URL env) \<or> absent (ST_TENANT_ID env) \<or> absent (ST_APP_KEY env)
         \<or> absent (SERVICETITAN_CLIENT_ID env) \<or> absent (SERVICETITAN_CLIENT_SECRET env)
      then None
      else (case (ST_BASE_URL env, ST_TENANT_ID env, ST_APP_KEY env,
                  SERVICETITAN_CLIENT_ID env, SERVICETITAN_CLIENT_SECRET env) of
              (Some baseUrl, Some tenantId, Some appKey, Some clientId, Some clientSecret) \<Rightarrow>
                Some (baseUrl, tenantId, appKey, clientId, clientSecret)
            | _ \<Rightarrow> None))"

text \<open>\<^verbatim>\<open>exports.handler\<close>: the environment check, the \<^verbatim>\<open>try\<close> block, and the \<^verbatim>\<open>catch\<close> that
  turns whatever was thrown into a 500 answer. The result is the list of the requests
  made and the answer.\<close>

definition handler ::
  "Env \<Rightarrow> (Request \<Rightarrow> Response outcome) \<Rightarrow> (string \<Rightarrow> jsval outcome) \<Rightarrow> Request list \<times> Answer" where
  "handler env fetch JSON_parse =
     (case config env of
        None \<Rightarrow>
          ([], \<lparr>statusCode = 500,
                 body = JSON_stringify (JObject [(''error'', JString missing_env_message)])\<rparr>)
      | Some (baseUrl, tenantId, appKey, clientId, clientSecret) \<Rightarrow>
          (case handler_try fetch JSON_parse baseUrl tenantId appKey clientId clientSecret of
             (calls, Resolved answer) \<Rightarrow> (calls, answer)
           | (calls, Rejected err) \<Rightarrow>
               (calls, \<lparr>statusCode = 500,
                        body = JSON_stringify (JObject [(''error'', JString (message err))])\<rparr>)))"

section \<open>The client data adapter\<close>

definition functions_request :: Request where
  "functions_request =
     \<lparr>request_method = ''GET'', url = ''/.netlify/functions/technicians'', request_headers = [],
      request_body = None\<rparr>"

text \<open>The \<^verbatim>\<open>try\<close> block of \<^verbatim>\<open>getTechnicians\<close>.\<close>

definition getTechnicians_try ::
  "(Request \<Rightarrow> Response outcome) \<Rightarrow> (string \<Rightarrow> jsval outcome) \<Rightarrow> jsval outcome" where
  "getTechnicians_try fetch JSON_parse =
     (case fetch functions_request of
        Rejected err \<Rightarrow> Rejected err
      | Resolved res \<Rightarrow>
          if \<not> ok res
          then Rejected (Thrown (''Failed to fetch technicians: '' @ digits (int (status res))))
          else (case json JSON_parse res of
                  Rejected err \<Rightarrow> Rejected err
                | Resolved data \<Rightarrow>
                    (case get data ''technicians'' of
                       Rejected err \<Rightarrow> Rejected err
                     | Resolved technicians \<Rightarrow> Resolved (or_else technicians (JArray [])))))"

text \<open>\<^verbatim>\<open>getTechnicians\<close>: what its promise settles with. The \<^verbatim>\<open>catch\<close> logs the error and
  returns the empty array.\<close>

definition getTechnicians ::
  "(Request \<Rightarrow> Response outcome) \<Rightarrow> (string \<Rightarrow> jsval outcome) \<Rightarrow> jsval outcome" where
  "getTechnicians fetch JSON_parse =
     (case getTechnicians_try fetch JSON_parse of
        Rejected err \<Rightarrow> Resolved (JArray [])
      | Resolved v \<Rightarrow> Resolved v)"

text \<open>A world for examples: the token endpoint and the technicians endpoint answer as
  given, every other request fails to connect; and a parser that knows two texts.\<close>

definition example_env :: Env where
  "example_env = \<lparr>ST_BASE_URL = Some ''https://api.servicetitan.io'', ST_TENANT_ID = Some ''42'',
     ST_APP_KEY = Some ''ak'', SERVICETITAN_CLIENT_ID = Some ''cid'',
     SERVICETITAN_CLIENT_SECRET = Some ''s3cret&''\<rparr>"

definition example_fetch :: "Response outcome \<Rightarrow> Response outcome \<Rightarrow> Request \<Rightarrow> Response outcome" where
  "example_fetch tokenAnswer techAnswer req =
     (if url req = ''https://auth.servicetitan.io/connect/token'' then tokenAnswer
      else if url req = ''https://api.servicetitan.io/settings/v2/tenant/42/technicians?active=true&page=1&pageSize=200''
             \<or> url req = ''/.netlify/functions/technicians''
      then techAnswer
      else Rejected (Thrown ''connect ECONNREFUSED''))"

definition example_parse :: "jsval \<Rightarrow> string \<Rightarrow> jsval outcome" where
  "example_parse payload s =
     (if s = ''token'' then Resolved (JObject [(''access_token'', JString ''abc'')])
      else if s = ''payload'' then Resolved payload
      else Rejected (Thrown ''Unexpected token''))"

section \<open>Rounding to a double: order and exactness\<close>

lemma pow2_powi: "pow2 e = 2 powi e"
  by (simp add: pow2_def power_int_def field_simps)

lemma pow2_pos [simp]: "0 < pow2 e"
  by (simp add: pow2_powi)

lemma pow2_nonzero: "pow2 e \<noteq> 0"
  by (simp add: pow2_powi)

lemma pow2_add: "pow2 (a + b) = pow2 a * pow2 b"
  by (simp add: pow2_powi power_int_add)

lemma pow2_mono: "a \<le> b \<Longrightarrow> pow2 a \<le> pow2 b"
  by (simp add: pow2_powi power_int_increasing)

lemma pow2_strict_mono: "a < b \<Longrightarrow> pow2 a < pow2 b"
  by (simp add: pow2_powi power_int_strict_increasing)

lemma pow2_less_iff: "pow2 a < pow2 b \<longleftrightarrow> a < b"
  using pow2_strict_mono[of a b] pow2_mono[of b a] by (cases "a < b") auto

lemma pow2_nat: "0 \<le> e \<Longrightarrow> pow2 e = of_int (2 ^ nat e)"
  by (simp add: pow2_def)

lemma ilog2_lower: assumes "0 < x" shows "pow2 (ilog2 x) \<le> x"
proof (cases "1 \<le> x")
  case True
  then have n: "0 < \<lfloor>x\<rfloor>" by linarith
  from bitlen_bounds[OF n] have "2 ^ nat (bitlen \<lfloor>x\<rfloor> - 1) \<le> \<lfloor>x\<rfloor>" by simp
  then have "(of_int (2 ^ nat (bitlen \<lfloor>x\<rfloor> - 1)) :: rat) \<le> of_int \<lfloor>x\<rfloor>"
    by (simp only: of_int_le_iff)
  also have "\<dots> \<le> x" by simp
  finally have "(2::rat) ^ nat (bitlen \<lfloor>x\<rfloor> - 1) \<le> x" by simp
  moreover have "0 \<le> bitlen \<lfloor>x\<rfloor> - 1"
    using n bitlen_eq_zero_iff[of "\<lfloor>x\<rfloor>"] bitlen_nonneg[of "\<lfloor>x\<rfloor>"] by linarith
  ultimately show ?thesis using True by (simp add: ilog2_def pow2_def)
next
  case False
  define y where "y = 1 / x"
  define n where "n = \<lceil>y\<rceil> - 1"
  have y1: "1 < y" using assms False by (simp add: y_def)
  then have n: "0 < n" unfolding n_def by linarith
  from bitlen_bounds[OF n] have "n < 2 ^ nat (bitlen n)" by simp
  then have "\<lceil>y\<rceil> \<le> 2 ^ nat (bitlen n)" by (simp add: n_def)
  then have "y \<le> of_int (2 ^ nat (bitlen n))" by (simp only: ceiling_le_iff)
  then have "y \<le> 2 ^ nat (bitlen n)" by simp
  then have "1 / 2 ^ nat (bitlen n) \<le> x"
    using assms by (simp add: y_def field_simps)
  moreover have "0 < bitlen n"
    using n bitlen_eq_zero_iff[of n] bitlen_nonneg[of n] by linarith
  ultimately show ?thesis using False by (simp add: ilog2_def pow2_def y_def n_def)
qed

lemma ilog2_upper: assumes "0 < x" shows "x < pow2 (ilog2 x + 1)"
proof (cases "1 \<le> x")
  case True
  then have n: "0 < \<lfloor>x\<rfloor>" by linarith
  from bitlen_bounds[OF n] have "\<lfloor>x\<rfloor> < 2 ^ nat (bitlen \<lfloor>x\<rfloor>)" by simp
  then have "x < of_int (2 ^ nat (bitlen \<lfloor>x\<rfloor>))" by (simp only: floor_less_iff)
  then show ?thesis using True bitlen_nonneg[of "\<lfloor>x\<rfloor>"] by (simp add: ilog2_def pow2_def)
next
  case False
  define y where "y = 1 / x"
  define n where "n = \<lceil>y\<rceil> - 1"
  have y1: "1 < y" using assms False by (simp add: y_def)
  then have n: "0 < n" unfolding n_def by linarith
  have b: "0 < bitlen n"
    using n bitlen_eq_zero_iff[of n] bitlen_nonneg[of n] by linarith
  from bitlen_bounds[OF n] have "2 ^ nat (bitlen n - 1) \<le> n" by simp
  then have "(of_int (2 ^ nat (bitlen n - 1)) :: rat) \<le> of_int n" by (simp only: of_int_le_iff)
  also have "of_int n < y" unfolding n_def by linarith
  finally have "2 ^ nat (bitlen n - 1) < y" by simp
  then have "x < 1 / 2 ^ nat (bitlen n - 1)"
    using assms by (simp add: y_def field_simps)
  moreover have "pow2 (- bitlen n + 1) = 1 / 2 ^ nat (bitlen n - 1)"
    using b by (cases "bitlen n = 1") (auto simp: pow2_def)
  ultimately show ?thesis using False by (simp add: ilog2_def y_def n_def)
qed

lemma ilog2_unique:
  assumes "pow2 e \<le> x" "x < pow2 (e + 1)"
  shows "ilog2 x = e"
proof -
  have x: "0 < x" using assms(1) pow2_pos[of e] by linarith
  have "pow2 (ilog2 x) < pow2 (e + 1)" using ilog2_lower[OF x] assms(2) by linarith
  moreover have "pow2 e < pow2 (ilog2 x + 1)" using ilog2_upper[OF x] assms(1) by linarith
  ultimately show ?thesis by (simp add: pow2_less_iff)
qed


lemma rne_of_int [simp]: "rne (of_int n) = n"
  by (simp add: rne_def)

lemma rne_mono: assumes "a \<le> b" shows "rne a \<le> rne b"
proof (cases "\<lfloor>a\<rfloor> = \<lfloor>b\<rfloor>")
  case True
  then show ?thesis using assms by (auto simp: rne_def Let_def)
next
  case False
  then have "\<lfloor>a\<rfloor> + 1 \<le> \<lfloor>b\<rfloor>" using floor_mono[OF assms] by linarith
  moreover have "rne a \<le> \<lfloor>a\<rfloor> + 1" by (auto simp: rne_def Let_def)
  moreover have "\<lfloor>b\<rfloor> \<le> rne b" by (auto simp: rne_def Let_def)
  ultimately show ?thesis by linarith
qed

lemma rne_minus: "rne (- q) = - rne q"
proof (cases "q = of_int \<lfloor>q\<rfloor>")
  case True
  then obtain n where "q = of_int n" ..
  then show ?thesis by (simp flip: of_int_minus)
next
  case False
  then have "\<lceil>q\<rceil> = \<lfloor>q\<rfloor> + 1" by (simp add: ceiling_altdef)
  then have f: "\<lfloor>- q\<rfloor> = - \<lfloor>q\<rfloor> - 1" by (simp add: ceiling_def)
  show ?thesis using False unfolding rne_def Let_def f
    by (auto simp: algebra_simps)
qed


lemma fl_zero [simp]: "fl 0 = 0"
  by (simp add: fl_def)

lemma fl_minus: "fl (- x) = - fl x"
  by (simp add: fl_def Let_def rne_minus)

lemma fl_pos_bounds:
  assumes "0 < x"
  shows "pow2 (ilog2 x) \<le> fl x" and "fl x \<le> pow2 (ilog2 x + 1)"
proof -
  define e where "e = ilog2 x"
  define u where "u = pow2 (e - 52)"
  have u: "0 < u" by (simp add: u_def)
  have fx: "fl x = of_int (rne (x / u)) * u"
    using assms by (simp add: fl_def Let_def u_def e_def)
  have p52: "pow2 52 = of_int (2 ^ 52)" and p53: "pow2 53 = of_int (2 ^ 53)"
    by (simp_all add: pow2_def)
  have lo: "pow2 e = of_int (2 ^ 52) * u"
    using pow2_add[of 52 "e - 52"] by (simp add: u_def p52)
  have hi: "pow2 (e + 1) = of_int (2 ^ 53) * u"
    using pow2_add[of 53 "e - 52"] by (simp add: u_def p53 add.commute)
  have "of_int (2 ^ 52) * u \<le> x"
    using ilog2_lower[OF assms] lo by (simp add: e_def)
  then have "of_int (2 ^ 52) \<le> x / u" using u by (simp add: field_simps)
  then have "rne (of_int (2 ^ 52)) \<le> rne (x / u)" by (rule rne_mono)
  then have "(of_int (2 ^ 52) :: rat) \<le> of_int (rne (x / u))"
    by (simp only: rne_of_int of_int_le_iff)
  then have "of_int (2 ^ 52) * u \<le> of_int (rne (x / u)) * u"
    using u by (simp only: mult_le_cancel_right_pos)
  then show "pow2 (ilog2 x) \<le> fl x" using lo fx by (simp add: e_def)
  have "x \<le> of_int (2 ^ 53) * u"
    using ilog2_upper[OF assms] hi by (simp add: e_def)
  then have "x / u \<le> of_int (2 ^ 53)" using u by (simp add: field_simps)
  then have "rne (x / u) \<le> rne (of_int (2 ^ 53))" by (rule rne_mono)
  then have "(of_int (rne (x / u)) :: rat) \<le> of_int (2 ^ 53)"
    by (simp only: rne_of_int of_int_le_iff)
  then have "of_int (rne (x / u)) * u \<le> of_int (2 ^ 53) * u"
    using u by (simp only: mult_le_cancel_right_pos)
  then show "fl x \<le> pow2 (ilog2 x + 1)" using hi fx by (simp add: e_def)
qed

lemma fl_pos: "0 < x \<Longrightarrow> 0 < fl x"
  using fl_pos_bounds(1)[of x] pow2_pos[of "ilog2 x"] by linarith

lemma ilog2_mono:
  assumes "0 < x" "x \<le> y"
  shows "ilog2 x \<le> ilog2 y"
proof -
  have y: "0 < y" using assms by linarith
  have "pow2 (ilog2 x) < pow2 (ilog2 y + 1)"
    using ilog2_lower[OF assms(1)] ilog2_upper[OF y] assms(2) by linarith
  then show ?thesis by (simp add: pow2_less_iff)
qed

lemma fl_mono_pos:
  assumes "0 < x" "x \<le> y"
  shows "fl x \<le> fl y"
proof (cases "ilog2 x = ilog2 y")
  case True
  have y: "0 < y" using assms by linarith
  define u where "u = pow2 (ilog2 y - 52)"
  have u: "0 < u" by (simp add: u_def)
  have "x / u \<le> y / u" using assms(2) u by (simp add: divide_right_mono)
  then have "rne (x / u) \<le> rne (y / u)" by (rule rne_mono)
  then have "(of_int (rne (x / u)) :: rat) * u \<le> of_int (rne (y / u)) * u"
    using u by (simp only: mult_le_cancel_right_pos of_int_le_iff)
  then show ?thesis using assms(1) y True by (simp add: fl_def Let_def u_def)
next
  case False
  have y: "0 < y" using assms by linarith
  from False ilog2_mono[OF assms] have "ilog2 x + 1 \<le> ilog2 y" by linarith
  then have "pow2 (ilog2 x + 1) \<le> pow2 (ilog2 y)" by (rule pow2_mono)
  then show ?thesis
    using fl_pos_bounds(2)[OF assms(1)] fl_pos_bounds(1)[OF y] by linarith
qed

lemma fl_mono:
  assumes "x \<le> y"
  shows "fl x \<le> fl y"
proof -
  consider "0 < x" | "x \<le> 0" "0 \<le> y" | "y < 0" using assms by linarith
  then show ?thesis
  proof cases
    case 1
    then show ?thesis using assms by (rule fl_mono_pos)
  next
    case 2
    have "fl x \<le> 0"
      using 2(1) fl_pos[of "- x"] by (cases "x = 0") (auto simp: fl_minus)
    moreover have "0 \<le> fl y"
      using 2(2) fl_pos[of y] by (cases "y = 0") auto
    ultimately show ?thesis by linarith
  next
    case 3
    then have "0 < - y" "- y \<le> - x" using assms by auto
    then have "fl (- y) \<le> fl (- x)" by (rule fl_mono_pos)
    then show ?thesis by (simp add: fl_minus)
  qed
qed

lemma fl_pos_iff: "0 < fl x \<longleftrightarrow> 0 < x"
  using fl_pos[of x] fl_mono[of x 0] by (cases "0 < x") auto

lemma fl_neg_iff: "fl x < 0 \<longleftrightarrow> x < 0"
  using fl_pos_iff[of "- x"] by (simp add: fl_minus)


lemma fl_exact_pos:
  assumes "0 < m" "m \<le> 2 ^ 53"
  shows "fl (of_int m * pow2 k) = of_int m * pow2 k"
proof -
  define x where "x = of_int m * pow2 k"
  define e where "e = ilog2 x"
  have p52: "pow2 52 = of_int (2 ^ 52)" and p53: "pow2 53 = of_int (2 ^ 53)"
    and pm1: "pow2 (- 1) = 1 / 2"
    by (simp_all add: pow2_def)
  have x: "0 < x" using assms(1) by (simp add: x_def)
  have "pow2 e \<le> of_int m * pow2 k" using ilog2_lower[OF x] by (simp add: e_def x_def)
  also have "\<dots> \<le> of_int (2 ^ 53) * pow2 k"
    using assms(2) by (simp only: mult_le_cancel_right_pos[OF pow2_pos] of_int_le_iff)
  also have "\<dots> = pow2 (53 + k)" by (simp add: pow2_add p53)
  finally have "pow2 e < pow2 (53 + k + 1)"
    using pow2_strict_mono[of "53 + k" "53 + k + 1"] by linarith
  then have ek: "e \<le> 53 + k" by (simp add: pow2_less_iff)
  have nz: "pow2 (e - 52) \<noteq> 0" by (rule pow2_nonzero)
  have xu: "x / pow2 (e - 52) = of_int m * pow2 (k - e + 52)"
    using pow2_add[of "k - e + 52" "e - 52"] nz by (simp add: x_def)
  have "\<exists>j. x / pow2 (e - 52) = of_int j"
  proof (cases "e \<le> 52 + k")
    case True
    then have "pow2 (k - e + 52) = of_int (2 ^ nat (k - e + 52))" by (simp add: pow2_nat)
    then have "x / pow2 (e - 52) = of_int (m * 2 ^ nat (k - e + 52))" by (simp add: xu)
    then show ?thesis ..
  next
    case False
    then have e53: "e = 53 + k" using ek by linarith
    have "pow2 (53 + k) \<le> of_int m * pow2 k"
      using ilog2_lower[OF x] by (simp add: e_def[symmetric] x_def[symmetric] e53[symmetric])
    then have "of_int (2 ^ 53) * pow2 k \<le> of_int m * pow2 k"
      by (simp add: pow2_add p53)
    then have "(of_int (2 ^ 53) :: rat) \<le> of_int m"
      by (simp only: mult_le_cancel_right_pos[OF pow2_pos])
    then have "2 ^ 53 \<le> m" by (simp only: of_int_le_iff)
    then have "m = 2 ^ 53" using assms(2) by linarith
    then have "x / pow2 (e - 52) = of_int (2 ^ 52)"
      using xu pm1 by (simp add: e53)
    then show ?thesis ..
  qed
  then obtain j where j: "x / pow2 (e - 52) = of_int j" ..
  have "fl x = of_int j * pow2 (e - 52)"
    using x j by (simp add: fl_def Let_def e_def)
  also have "\<dots> = x" using j[symmetric] nz by simp
  finally show ?thesis by (simp add: x_def)
qed

lemma fl_exact:
  assumes "\<bar>m\<bar> \<le> 2 ^ 53"
  shows "fl (of_int m * pow2 k) = of_int m * pow2 k"
proof -
  consider "0 < m" | "m = 0" | "m < 0" by linarith
  then show ?thesis
  proof cases
    case 1
    then show ?thesis using assms by (intro fl_exact_pos) auto
  next
    case 2
    then show ?thesis by simp
  next
    case 3
    then have "fl (of_int (- m) * pow2 k) = of_int (- m) * pow2 k"
      using assms by (intro fl_exact_pos) auto
    then show ?thesis by (simp add: fl_minus flip: minus_mult_left)
  qed
qed

lemma fl_of_int:
  assumes "\<bar>n\<bar> \<le> 2 ^ 53"
  shows "fl (of_int n) = of_int n"
  using fl_exact[OF assms, of 0] by (simp add: pow2_def)





section \<open>Sorting, grouping and sums\<close>

subsection \<open>Sorting with a comparator\<close>

lemma mset_insert_by: "mset (insert_by cmp a xs) = add_mset a (mset xs)"
  by (induction xs) auto

lemma mset_sort_by: "mset (sort_by cmp xs) = mset xs"
  unfolding sort_by_def by (induction xs) (auto simp: mset_insert_by)

lemma set_sort_by: "set (sort_by cmp xs) = set xs"
  using mset_sort_by[of cmp xs] by (metis set_mset_mset)

lemma length_sort_by: "length (sort_by cmp xs) = length xs"
  using mset_sort_by[of cmp xs] by (metis size_mset)





subsection \<open>The insertion-ordered map\<close>

lemma map_of_Map_set: "map_of (Map_set m k v) = (map_of m)(k \<mapsto> v)"
  by (induction m) (auto simp: fun_eq_iff)

lemma keys_Map_set:
  "map fst (Map_set m k v) = (if k \<in> set (map fst m) then map fst m else map fst m @ [k])"
  by (induction m) force+

lemma group_step_keys:
  "map fst (group_step mode m r) =
     (if keyFor mode r \<in> set (map fst m) then map fst m else map fst m @ [keyFor mode r])"
  by (auto simp: group_step_def Let_def Map_has_def Map_get_def map_of_Map_set keys_Map_set
      split: option.splits)

lemma group_step_lookup:
  "map_of (group_step mode m r) k =
     (if k = keyFor mode r
      then Some ((case map_of m k of Some rs \<Rightarrow> rs | None \<Rightarrow> []) @ [r])
      else map_of m k)"
  by (auto simp: group_step_def Let_def Map_has_def Map_get_def map_of_Map_set
      map_of_eq_None_iff[symmetric] split: option.splits)

lemma group_map_snoc: "group_map mode (rs @ [r]) = group_step mode (group_map mode rs) r"
  by (simp add: group_map_def)

lemma group_map_keys:
  "distinct (map fst (group_map mode rs)) \<and> set (map fst (group_map mode rs)) = keyFor mode ` set rs"
proof (induction rs rule: rev_induct)
  case Nil
  then show ?case by (simp add: group_map_def)
next
  case (snoc r rs)
  then show ?case by (auto simp: group_map_snoc group_step_keys)
qed

lemma group_map_lookup:
  "map_of (group_map mode rs) k =
     (if k \<in> keyFor mode ` set rs then Some (filter (\<lambda>r. keyFor mode r = k) rs) else None)"
proof (induction rs rule: rev_induct)
  case Nil
  then show ?case by (simp add: group_map_def)
next
  case (snoc r rs)
  then show ?case
    by (force simp: group_map_snoc group_step_lookup empty_filter_conv image_iff)
qed


subsection \<open>What the groups are\<close>

lemma grouped_labels:
  "map label (grouped lc mode flt) = sort_by lc (map fst (group_map mode flt))"
  by (simp add: grouped_def Let_def Map_keys_def comp_def)

lemma grouped_label_set: "label ` set (grouped lc mode flt) = keyFor mode ` set flt"
proof -
  have "set (map label (grouped lc mode flt)) = keyFor mode ` set flt"
    using group_map_keys[of mode flt] by (simp only: grouped_labels set_sort_by)
  then show ?thesis by simp
qed

lemma grouped_labels_distinct: "distinct (map label (grouped lc mode flt))"
proof -
  have "mset (map label (grouped lc mode flt)) = mset (map fst (group_map mode flt))"
    by (simp only: grouped_labels mset_sort_by)
  then show ?thesis using group_map_keys[of mode flt] by (metis mset_eq_imp_distinct_iff)
qed

lemma grouped_member:
  assumes "g \<in> set (grouped lc mode flt)"
  shows "rows g = sort_by (\<lambda>a b. js_sub (invoiceAmount b) (invoiceAmount a))
                    (filter (\<lambda>r. keyFor mode r = label g) flt)"
    and "subtotal g = sum_amounts (rows g)"
    and "label g \<in> keyFor mode ` set flt"
proof -
  from assms obtain l where l: "l \<in> set (sort_by lc (Map_keys (group_map mode flt)))"
    and g: "g = \<lparr>label = l,
        rows = sort_by (\<lambda>a b. js_sub (invoiceAmount b) (invoiceAmount a))
                 (case Map_get (group_map mode flt) l of Some v \<Rightarrow> v | None \<Rightarrow> []),
        subtotal = sum_amounts (sort_by (\<lambda>a b. js_sub (invoiceAmount b) (invoiceAmount a))
                 (case Map_get (group_map mode flt) l of Some v \<Rightarrow> v | None \<Rightarrow> []))\<rparr>"
    by (auto simp: grouped_def Let_def)
  from l have k: "l \<in> keyFor mode ` set flt"
    using group_map_keys[of mode flt] by (simp add: set_sort_by Map_keys_def)
  then have "Map_get (group_map mode flt) l = Some (filter (\<lambda>r. keyFor mode r = l) flt)"
    by (simp add: Map_get_def group_map_lookup)
  then show "rows g = sort_by (\<lambda>a b. js_sub (invoiceAmount b) (invoiceAmount a))
                    (filter (\<lambda>r. keyFor mode r = label g) flt)"
    and "subtotal g = sum_amounts (rows g)"
    and "label g \<in> keyFor mode ` set flt"
    using g k by simp_all
qed

lemma sum_list_delta0:
  "k0 \<notin> set ks \<Longrightarrow> (\<Sum>k\<leftarrow>ks. if k0 = k then c else 0) = (0::rat)"
  by (induction ks) auto

lemma sum_list_delta:
  "distinct ks \<Longrightarrow> k0 \<in> set ks \<Longrightarrow> (\<Sum>k\<leftarrow>ks. if k0 = k then c else 0) = (c::rat)"
  by (induction ks) (auto simp: sum_list_delta0)

lemma sum_by_key:
  assumes "distinct ks" "f ` set xs \<subseteq> set ks"
  shows "(\<Sum>k\<leftarrow>ks. \<Sum>x\<leftarrow>filter (\<lambda>x. f x = k) xs. h x) = (\<Sum>x\<leftarrow>xs. (h x :: rat))"
  using assms(2)
proof (induction xs)
  case Nil
  then show ?case by simp
next
  case (Cons x xs)
  have "(\<Sum>k\<leftarrow>ks. \<Sum>y\<leftarrow>filter (\<lambda>y. f y = k) (x # xs). h y)
      = (\<Sum>k\<leftarrow>ks. (if f x = k then h x else 0) + (\<Sum>y\<leftarrow>filter (\<lambda>y. f y = k) xs. h y))"
    by (rule arg_cong[where f = sum_list]) (rule map_cong, auto)
  also have "\<dots> = (\<Sum>k\<leftarrow>ks. if f x = k then h x else 0)
                 + (\<Sum>k\<leftarrow>ks. \<Sum>y\<leftarrow>filter (\<lambda>y. f y = k) xs. h y)"
    by (simp add: sum_list_addf)
  also have "\<dots> = h x + (\<Sum>y\<leftarrow>xs. h y)"
    using Cons assms(1) by (simp add: sum_list_delta)
  finally show ?case by simp
qed

lemma sum_list_sort_by: "(\<Sum>x\<leftarrow>sort_by cmp xs. (h x :: rat)) = (\<Sum>x\<leftarrow>xs. h x)"
proof -
  have "sum_mset (image_mset h (mset (sort_by cmp xs))) = sum_mset (image_mset h (mset xs))"
    by (simp only: mset_sort_by)
  then show ?thesis by (simp add: sum_mset_sum_list flip: mset_map)
qed

lemma grouped_rows_sum:
  "(\<Sum>g\<leftarrow>grouped lc mode flt. \<Sum>r\<leftarrow>rows g. h r) = (\<Sum>r\<leftarrow>flt. (h r :: rat))"
proof -
  have "(\<Sum>g\<leftarrow>grouped lc mode flt. \<Sum>r\<leftarrow>rows g. h r)
      = (\<Sum>g\<leftarrow>grouped lc mode flt. \<Sum>r\<leftarrow>filter (\<lambda>r. keyFor mode r = label g) flt. h r)"
    by (rule arg_cong[where f = sum_list], rule map_cong)
       (simp_all add: grouped_member(1) sum_list_sort_by)
  also have "\<dots> = (\<Sum>k\<leftarrow>map label (grouped lc mode flt).
                       \<Sum>r\<leftarrow>filter (\<lambda>r. keyFor mode r = k) flt. h r)"
    by (simp add: comp_def)
  also have "\<dots> = (\<Sum>r\<leftarrow>flt. h r)"
    by (rule sum_by_key) (simp_all add: grouped_labels_distinct grouped_label_set)
  finally show ?thesis .
qed

subsection \<open>When the floating-point sums are exact\<close>

lemma js_add_int:
  assumes "a \<in> \<int>" "b \<in> \<int>" "\<bar>a\<bar> + \<bar>b\<bar> \<le> 2 ^ 53"
  shows "js_add a b = a + b"
proof -
  from assms(1,2) obtain i j where ij: "a = of_int i" "b = of_int j"
    by (auto elim!: Ints_cases)
  have "\<bar>of_int (i + j) :: rat\<bar> \<le> 2 ^ 53" using assms(3) ij by simp
  then have "\<bar>i + j\<bar> \<le> 2 ^ 53"
    by (metis of_int_abs of_int_le_iff of_int_numeral of_int_power)
  then have "fl (of_int (i + j)) = of_int (i + j)" by (rule fl_of_int)
  then show ?thesis by (simp add: js_add_def ij)
qed

lemma foldl_js_add_exact:
  assumes "\<forall>a \<in> set as. a \<in> \<int>" "acc \<in> \<int>" "\<bar>acc\<bar> + (\<Sum>a\<leftarrow>as. \<bar>a\<bar>) \<le> 2 ^ 53"
  shows "foldl js_add acc as = acc + sum_list as"
  using assms
proof (induction as arbitrary: acc)
  case Nil
  then show ?case by simp
next
  case (Cons a as)
  have nn: "0 \<le> (\<Sum>a\<leftarrow>as. \<bar>a\<bar>)" by (rule sum_list_nonneg) auto
  have step: "js_add acc a = acc + a"
    using Cons.prems nn by (intro js_add_int) auto
  have "\<bar>acc + a\<bar> + (\<Sum>a\<leftarrow>as. \<bar>a\<bar>) \<le> 2 ^ 53"
    using Cons.prems(3) by simp
  moreover have "acc + a \<in> \<int>" using Cons.prems by simp
  ultimately have "foldl js_add (acc + a) as = acc + a + sum_list as"
    using Cons.prems(1) by (intro Cons.IH) auto
  then show ?case by (simp add: step)
qed

lemma sum_amounts_foldl: "sum_amounts rs = foldl js_add 0 (map invoiceAmount rs)"
  by (simp add: sum_amounts_def foldl_map)

lemma sum_amounts_exact:
  assumes "\<forall>r \<in> set rs. invoiceAmount r \<in> \<int>" "(\<Sum>r\<leftarrow>rs. \<bar>invoiceAmount r\<bar>) \<le> 2 ^ 53"
  shows "sum_amounts rs = (\<Sum>r\<leftarrow>rs. invoiceAmount r)"
proof -
  have "foldl js_add 0 (map invoiceAmount rs) = 0 + sum_list (map invoiceAmount rs)"
    using assms by (intro foldl_js_add_exact) (auto simp: comp_def)
  then show ?thesis by (simp add: sum_amounts_foldl)
qed

lemma grand_total_foldl:
  "total (foldl (\<lambda>acc r. \<lparr>count = count acc + count r,
                            total = js_add (total acc) (total r),
                            commission = js_add (commission acc) (commission r)\<rparr>) a srs)
     = foldl js_add (total a) (map total srs)"
  by (induction srs arbitrary: a) auto

lemma grand_total: "total (grand srs) = foldl js_add 0 (map total srs)"
  by (cases srs) (simp_all add: grand_def grand_total_foldl del: foldl_Cons)

lemma summarize_totals: "mset (map total (summarize rate gs)) = mset (map subtotal gs)"
proof -
  have "mset (map total (summarize rate gs))
      = image_mset total (mset (summarize rate gs))" by simp
  also have "\<dots> = image_mset total (mset (map (\<lambda>g. \<lparr>count = length (rows g), total = subtotal g,
                   commission = toFixed_num (js_mul (subtotal g) rate) 2,
                   name = label g\<rparr>) gs))"
    by (simp only: summarize_def mset_sort_by)
  also have "\<dots> = mset (map subtotal gs)" by (simp add: multiset.map_comp comp_def)
  finally show ?thesis .
qed

lemma summaryRows_range:
  "summaryRows True mode gs =
     summarize (case mode of Tech \<Rightarrow> fl (5 / 100) | Installer \<Rightarrow> fl (75 / 1000)) gs"
  by (cases mode) (simp_all add: summaryRows_def installerSummary_def techSummary_def)

lemma sum_list_member_le:
  "(\<forall>x \<in> set xs. 0 \<le> x) \<Longrightarrow> x \<in> set xs \<Longrightarrow> (x::rat) \<le> sum_list xs"
proof (induction xs)
  case Nil
  then show ?case by simp
next
  case (Cons y ys)
  have "0 \<le> sum_list ys" using Cons.prems(1) by (intro sum_list_nonneg) auto
  then show ?case using Cons by auto
qed


lemma sum_list_Ints: "(\<forall>x \<in> set xs. x \<in> \<int>) \<Longrightarrow> sum_list xs \<in> (\<int> :: rat set)"
  by (induction xs) auto

lemma grouped_subtotals_exact:
  assumes ints: "\<forall>r \<in> set flt. invoiceAmount r \<in> \<int>"
    and bound: "(\<Sum>r\<leftarrow>flt. \<bar>invoiceAmount r\<bar>) \<le> 2 ^ 53"
    and g: "g \<in> set (grouped lc mode flt)"
  shows "subtotal g = (\<Sum>r\<leftarrow>rows g. invoiceAmount r)"
proof -
  have rows: "set (rows g) \<subseteq> set flt"
    by (auto simp: grouped_member(1)[OF g] set_sort_by)
  have "(\<Sum>r\<leftarrow>rows g. \<bar>invoiceAmount r\<bar>)
      \<le> (\<Sum>g\<leftarrow>grouped lc mode flt. \<Sum>r\<leftarrow>rows g. \<bar>invoiceAmount r\<bar>)"
    using g by (intro sum_list_member_le) (auto intro!: sum_list_nonneg)
  also have "\<dots> = (\<Sum>r\<leftarrow>flt. \<bar>invoiceAmount r\<bar>)" by (rule grouped_rows_sum)
  finally have "(\<Sum>r\<leftarrow>rows g. \<bar>invoiceAmount r\<bar>) \<le> 2 ^ 53" using bound by linarith
  then have "sum_amounts (rows g) = (\<Sum>r\<leftarrow>rows g. invoiceAmount r)"
    using ints rows by (intro sum_amounts_exact) auto
  then show ?thesis by (simp add: grouped_member(2)[OF g])
qed

lemma grouped_subtotals_sum:
  assumes ints: "\<forall>r \<in> set flt. invoiceAmount r \<in> \<int>"
    and bound: "(\<Sum>r\<leftarrow>flt. \<bar>invoiceAmount r\<bar>) \<le> 2 ^ 53"
  shows "(\<Sum>g\<leftarrow>grouped lc mode flt. subtotal g) = (\<Sum>r\<leftarrow>flt. invoiceAmount r)"
proof -
  have "(\<Sum>g\<leftarrow>grouped lc mode flt. subtotal g)
      = (\<Sum>g\<leftarrow>grouped lc mode flt. \<Sum>r\<leftarrow>rows g. invoiceAmount r)"
    by (rule arg_cong[where f = sum_list], rule map_cong)
       (simp_all add: grouped_subtotals_exact[OF ints bound])
  then show ?thesis by (simp only: grouped_rows_sum)
qed

lemma grand_total_exact:
  assumes ints: "\<forall>r \<in> set flt. invoiceAmount r \<in> \<int>"
    and bound: "(\<Sum>r\<leftarrow>flt. \<bar>invoiceAmount r\<bar>) \<le> 2 ^ 53"
  shows "total (grand (summaryRows True mode (grouped lc mode flt))) = (\<Sum>r\<leftarrow>flt. invoiceAmount r)"
proof -
  define gs where "gs = grouped lc mode flt"
  define ts where "ts = map total (summaryRows True mode gs)"
  have ms: "mset ts = mset (map subtotal gs)"
    by (simp only: ts_def summaryRows_range summarize_totals)
  have sub: "\<forall>g \<in> set gs. subtotal g = (\<Sum>r\<leftarrow>rows g. invoiceAmount r)"
    using grouped_subtotals_exact[OF ints bound] by (simp add: gs_def)
  have sub_int: "\<forall>g \<in> set gs. subtotal g \<in> \<int>"
  proof
    fix g assume g: "g \<in> set gs"
    then have "set (rows g) \<subseteq> set flt"
      by (auto simp: gs_def grouped_member(1) set_sort_by)
    then have "\<forall>x \<in> set (map invoiceAmount (rows g)). x \<in> \<int>"
      using ints by (simp add: subset_iff)
    then have "(\<Sum>r\<leftarrow>rows g. invoiceAmount r) \<in> \<int>"
      by (rule sum_list_Ints)
    then show "subtotal g \<in> \<int>" using sub g by simp
  qed
  have "set ts = set (map subtotal gs)" using ms by (metis set_mset_mset)
  then have ts_int: "\<forall>t \<in> set ts. t \<in> \<int>" using sub_int by auto
  have "(\<Sum>t\<leftarrow>ts. \<bar>t\<bar>) = (\<Sum>g\<leftarrow>gs. \<bar>subtotal g\<bar>)"
  proof -
    have "image_mset abs (mset ts) = image_mset abs (mset (map subtotal gs))"
      by (simp only: ms)
    then have "mset (map abs ts) = mset (map (\<lambda>g. \<bar>subtotal g\<bar>) gs)"
      by (simp add: multiset.map_comp comp_def)
    then have "sum_mset (mset (map abs ts)) = sum_mset (mset (map (\<lambda>g. \<bar>subtotal g\<bar>) gs))"
      by (rule arg_cong)
    then show ?thesis by (simp only: sum_mset_sum_list)
  qed
  also have "\<dots> \<le> (\<Sum>g\<leftarrow>gs. \<Sum>r\<leftarrow>rows g. \<bar>invoiceAmount r\<bar>)"
  proof (rule sum_list_mono)
    fix g assume "g \<in> set gs"
    then have "subtotal g = (\<Sum>r\<leftarrow>rows g. invoiceAmount r)" using sub by simp
    then show "\<bar>subtotal g\<bar> \<le> (\<Sum>r\<leftarrow>rows g. \<bar>invoiceAmount r\<bar>)"
      using sum_list_abs[of "map invoiceAmount (rows g)"] by (simp add: comp_def)
  qed
  also have "\<dots> = (\<Sum>r\<leftarrow>flt. \<bar>invoiceAmount r\<bar>)"
    unfolding gs_def by (rule grouped_rows_sum)
  finally have b: "\<bar>0\<bar> + (\<Sum>t\<leftarrow>ts. \<bar>t\<bar>) \<le> 2 ^ 53" using bound by simp
  have "foldl js_add 0 ts = 0 + sum_list ts"
    using ts_int b by (intro foldl_js_add_exact) auto
  also have "sum_list ts = (\<Sum>g\<leftarrow>gs. subtotal g)"
    using arg_cong[OF ms, of sum_mset] by (simp only: sum_mset_sum_list)
  also have "\<dots> = (\<Sum>r\<leftarrow>flt. invoiceAmount r)"
    unfolding gs_def by (rule grouped_subtotals_sum[OF ints bound])
  finally show ?thesis by (simp add: grand_total ts_def gs_def)
qed

lemma filtered_all:
  assumes "\<forall>r \<in> set allData. soldByTech r \<in> set selT \<and> installerName r \<in> set selI"
  shows "filtered allData selT selI = allData"
  using assms by (simp add: filtered_def)

subsection \<open>The example collation is consistent\<close>




section \<open>Dates the generator can be given\<close>

lemma digit_val_range: "digit_val c = Some v \<Longrightarrow> 0 \<le> v \<and> v \<le> 9"
  by (auto simp: digit_val_def Let_def split: if_splits)

lemma number_of_digits_bound:
  "number_of_digits acc cs = Some v \<Longrightarrow> 0 \<le> acc \<Longrightarrow>
     0 \<le> v \<and> v < (acc + 1) * 10 ^ length cs"
proof (induction cs arbitrary: acc)
  case Nil
  then show ?case by simp
next
  case (Cons c cs)
  from Cons.prems(1) obtain d where d: "digit_val c = Some d"
    and v: "number_of_digits (acc * 10 + d) cs = Some v"
    by (auto split: option.splits)
  have dr: "0 \<le> d" "d \<le> 9" using digit_val_range[OF d] by simp_all
  have "0 \<le> acc * 10 + d" using Cons.prems(2) dr by simp
  from Cons.IH[OF v this] have "0 \<le> v" and lt: "v < (acc * 10 + d + 1) * 10 ^ length cs" by simp_all
  have "(acc * 10 + d + 1) * 10 ^ length cs \<le> ((acc + 1) * 10) * 10 ^ length cs"
    using dr by (intro mult_right_mono) simp_all
  also have "\<dots> = (acc + 1) * 10 ^ length (c # cs)" by simp
  finally have "v < (acc + 1) * 10 ^ length (c # cs)" using lt by linarith
  then show ?case using \<open>0 \<le> v\<close> by simp
qed

lemma days_in_month_le: "days_in_month y m \<le> 31"
  by (simp add: days_in_month_def)

lemma parse_iso_date_bounds:
  assumes "parse_iso_date s = Some (y, m, d)"
  shows "0 \<le> y \<and> y \<le> 9999 \<and> 1 \<le> m \<and> m \<le> 12 \<and> 1 \<le> d \<and> d \<le> 31"
proof -
  from assms have len: "length s = 10"
    and y: "number_of_digits 0 (take 4 s) = Some y"
    and md: "1 \<le> m" "m \<le> 12" "1 \<le> d" "d \<le> days_in_month y m"
    by (auto simp: parse_iso_date_def split: if_splits option.splits)
  from number_of_digits_bound[OF y] len have "0 \<le> y" "y < 10000" by simp_all
  then show ?thesis using md days_in_month_le[of y m] by simp
qed

lemma days_from_civil_bounds:
  assumes "- 20000 \<le> y" "y \<le> 20000" "- 5000 \<le> m" "m \<le> 5000"
  shows "- 9000000 \<le> days_from_civil y m d - d \<and> days_from_civil y m d - d \<le> 9000000"
proof -
  define y1 where "y1 = (if m \<le> 2 then y - 1 else y)"
  define era where "era = y1 div 400"
  define yoe where "yoe = y1 - era * 400"
  define doy0 where "doy0 = (153 * (if m > 2 then m - 3 else m + 9) + 2) div 5"
  have y1: "- 20001 \<le> y1" "y1 \<le> 20000" unfolding y1_def using assms by simp_all
  have era: "- 51 \<le> era" "era \<le> 50" unfolding era_def using y1 by linarith+
  have yoe: "0 \<le> yoe" "yoe \<le> 399" unfolding yoe_def era_def by linarith+
  have doy0: "- 200000 \<le> doy0" "doy0 \<le> 200000" unfolding doy0_def using assms(3,4)
    by (simp_all split: if_splits) linarith+
  have q: "0 \<le> yoe div 4" "yoe div 4 \<le> 99" "0 \<le> yoe div 100" "yoe div 100 \<le> 3"
    using yoe by linarith+
  have "days_from_civil y m d - d
      = era * 146097 + (yoe * 365 + yoe div 4 - yoe div 100 + doy0 - 1) - 719468"
    by (simp add: days_from_civil_def Let_def y1_def era_def yoe_def doy0_def)
  then show ?thesis using era yoe doy0 q by linarith
qed

lemma civil_from_days_rough:
  assumes "civil_from_days z = (y, m, d)" and "- 4000000 \<le> z" and "z \<le> 4000000"
  shows "- 20000 \<le> y \<and> y \<le> 20000 \<and> - 5000 \<le> m \<and> m \<le> 5000 \<and> 0 \<le> d \<and> d \<le> 33"
proof -
  define z1 where "z1 = z + 719468"
  define era where "era = z1 div 146097"
  define doe where "doe = z1 - era * 146097"
  define yoe where "yoe = year_of_era doe"
  define doy where "doy = day_of_year doe yoe"
  define mp where "mp = month_index doy"
  have doe: "0 \<le> doe" "doe \<le> 146096" unfolding doe_def era_def by linarith+
  have era: "- 40 \<le> era" "era \<le> 40" unfolding era_def z1_def using assms(2,3) by linarith+
  have yoe: "0 \<le> yoe" "yoe \<le> 400" unfolding yoe_def year_of_era_def using doe by linarith+
  have doy: "- 150000 \<le> doy" "doy \<le> 147000"
    unfolding doy_def day_of_year_def using doe yoe by linarith+
  have mp: "- 4910 \<le> mp" "mp \<le> 4810" unfolding mp_def month_index_def using doy by linarith+
  have mp1: "153 * mp \<le> 5 * doy + 2" "5 * doy + 2 < 153 * mp + 153"
    unfolding mp_def month_index_def by linarith+
  have dm: "0 \<le> day_of_month doy mp" "day_of_month doy mp \<le> 33"
    unfolding day_of_month_def using mp1 by linarith+
  have "(if (if mp < 10 then mp + 3 else mp - 9) \<le> 2 then yoe + era * 400 + 1 else yoe + era * 400,
         if mp < 10 then mp + 3 else mp - 9, day_of_month doy mp) = (y, m, d)"
    using assms(1) unfolding civil_from_days_def Let_def z1_def era_def doe_def yoe_def doy_def mp_def .
  then have "y = (if (if mp < 10 then mp + 3 else mp - 9) \<le> 2 then yoe + era * 400 + 1 else yoe + era * 400)"
    and "m = (if mp < 10 then mp + 3 else mp - 9)"
    and "d = day_of_month doy mp"
    by auto
  then show ?thesis using era yoe mp dm by (auto split: if_splits)
qed


lemma days_from_civil_parsed:
  assumes "0 \<le> y" "y \<le> 9999" "1 \<le> m" "m \<le> 12" "1 \<le> d" "d \<le> 31"
  shows "- 1000000 \<le> days_from_civil y m d \<and> days_from_civil y m d \<le> 3000000"
proof -
  define y1 where "y1 = (if m \<le> 2 then y - 1 else y)"
  define era where "era = y1 div 400"
  define yoe where "yoe = y1 - era * 400"
  define doy0 where "doy0 = (153 * (if m > 2 then m - 3 else m + 9) + 2) div 5"
  have y1: "- 1 \<le> y1" "y1 \<le> 9999" unfolding y1_def using assms by simp_all
  have era: "- 1 \<le> era" "era \<le> 24" unfolding era_def using y1 by linarith+
  have yoe: "0 \<le> yoe" "yoe \<le> 399" unfolding yoe_def era_def by linarith+
  have doy0: "0 \<le> doy0" "doy0 \<le> 700" unfolding doy0_def using assms(3,4)
    by (simp_all split: if_splits) linarith+
  have q: "0 \<le> yoe div 4" "yoe div 4 \<le> 99" "0 \<le> yoe div 100" "yoe div 100 \<le> 3"
    using yoe by linarith+
  have "days_from_civil y m d
      = era * 146097 + (yoe * 365 + yoe div 4 - yoe div 100 + doy0 + d - 1) - 719468"
    by (simp add: days_from_civil_def Let_def y1_def era_def yoe_def doy0_def)
  then show ?thesis using era yoe doy0 q assms(5,6) by linarith
qed

lemma addDaysISO_Some:
  assumes p: "parse_iso_date base = Some (y, m, d)"
    and tz: "- 1440 \<le> tz" "tz \<le> 1440"
    and delta: "- 1000000 \<le> delta" "delta \<le> 1000000"
  shows "\<exists>s. addDaysISO tz base delta = Some s"
proof -
  define D0 where "D0 = days_from_civil y m d"
  define t where "t = D0 * msPerDay - tz * 60000"
  have pb: "0 \<le> y" "y \<le> 9999" "1 \<le> m" "m \<le> 12" "1 \<le> d" "d \<le> 31"
    using parse_iso_date_bounds[OF p] by simp_all
  have D0: "- 1000000 \<le> D0" "D0 \<le> 3000000"
    using days_from_civil_parsed[OF pb] by (simp_all add: D0_def)
  have t: "Date_local_midnight tz base = Some t"
    by (simp add: Date_local_midnight_def p t_def D0_def)
  have lt: "(t + tz * 60000) div msPerDay = D0" "(t + tz * 60000) mod msPerDay = 0"
    by (simp_all add: t_def msPerDay_def)
  obtain y' m' d' where c: "civil_from_days D0 = (y', m', d')"
    by (cases "civil_from_days D0") auto
  have cb: "- 20000 \<le> y'" "y' \<le> 20000" "- 5000 \<le> m'" "m' \<le> 5000" "0 \<le> d'" "d' \<le> 33"
    using civil_from_days_rough[OF c] D0 by simp_all
  have g: "getDate tz t = d'" by (simp add: getDate_def lt c)
  define N where "N = days_from_civil y' m' 1 + (d' + delta) - 1"
  have "- 9000000 \<le> days_from_civil y' m' 1 - 1" "days_from_civil y' m' 1 - 1 \<le> 9000000"
    using days_from_civil_bounds[OF cb(1-4), of 1] by simp_all
  then have N: "- 11000000 \<le> N" "N \<le> 11000000" unfolding N_def using cb(5,6) delta by linarith+
  have "\<bar>N * msPerDay + 0 - tz * 60000\<bar> \<le> 8640000000000000"
    using N tz unfolding msPerDay_def by linarith
  then have "setDate tz t (getDate tz t + delta) = Some (N * msPerDay + 0 - tz * 60000)"
    by (simp add: setDate_def Let_def lt c g TimeClip_def N_def)
  then show ?thesis by (simp add: addDaysISO_def t)
qed

section \<open>The random draws stay in range\<close>

lemma strSeed_nonneg: "0 \<le> strSeed str"
  by (simp add: strSeed_def)

lemma js_rem_nonneg: "0 \<le> a \<Longrightarrow> 0 < b \<Longrightarrow> js_rem a b = a mod b"
  by (cases "a = 0") (simp_all add: js_rem_def)

lemma seededRandom_range:
  "0 \<le> seed \<Longrightarrow> 0 \<le> seededRandom seed \<and> seededRandom seed < 2147483647"
  by (auto simp: seededRandom_def js_rem_nonneg Let_def)

lemma rng_range:
  assumes "0 \<le> s" and "rng s = (r, s')"
  shows "0 \<le> s' \<and> s' < 2147483647 \<and> 0 \<le> r \<and> r \<le> 2147483647 / 2147483648"
proof -
  have s': "s' = (s * 48271) mod 2147483647" and r: "r = fl (of_int s' / 2147483647)"
    using assms by (auto simp: rng_def Let_def js_rem_nonneg js_div_def)
  have b: "0 \<le> s'" "s' \<le> 2147483646" unfolding s' by linarith+
  have top: "fl (2147483646 / 2147483647) = 2147483647 / 2147483648"
    by code_simp
  have "(of_int s' :: rat) \<le> 2147483646" using b(2) by linarith
  then have "(of_int s' :: rat) / 2147483647 \<le> 2147483646 / 2147483647"
    by (simp add: divide_right_mono)
  then have "r \<le> 2147483647 / 2147483648"
    unfolding r using fl_mono[of "of_int s' / 2147483647" "2147483646 / 2147483647"] top by simp
  moreover have "0 \<le> r"
    unfolding r using fl_mono[of 0 "of_int s' / 2147483647"] b(1) by simp
  ultimately show ?thesis using b by simp
qed

lemma scaled_floor_range:
  assumes "0 \<le> r" and "r \<le> 2147483647 / 2147483648" and "0 < n" and "n \<le> 4194304"
  shows "0 \<le> \<lfloor>js_mul r (of_int n)\<rfloor> \<and> \<lfloor>js_mul r (of_int n)\<rfloor> < n"
proof -
  have m: "\<bar>n * 2147483647\<bar> \<le> 2 ^ 53" using assms(3,4) by simp
  have e: "2147483647 / 2147483648 * of_int n = of_int (n * 2147483647) * pow2 (- 31)"
    by (simp add: pow2_def)
  have top: "fl (2147483647 / 2147483648 * of_int n) = 2147483647 / 2147483648 * of_int n"
    unfolding e using m by (rule fl_exact)
  have "r * of_int n \<le> 2147483647 / 2147483648 * of_int n"
    using assms(2,3) by (intro mult_right_mono) simp_all
  then have "js_mul r (of_int n) \<le> 2147483647 / 2147483648 * of_int n"
    unfolding js_mul_def using fl_mono[of "r * of_int n" "2147483647 / 2147483648 * of_int n"] top
    by simp
  also have "\<dots> < of_int n" using assms(3) by simp
  finally have "\<lfloor>js_mul r (of_int n)\<rfloor> < n" by (simp add: floor_less_iff)
  moreover have "0 \<le> js_mul r (of_int n)"
    unfolding js_mul_def using fl_mono[of 0 "r * of_int n"] assms(1,3) by simp
  ultimately show ?thesis by simp
qed

lemma soldOffset_range:
  assumes "0 \<le> r" and "r \<le> 2147483647 / 2147483648"
  shows "- 28 \<le> soldOffset r \<and> soldOffset r \<le> - 3"
  using scaled_floor_range[OF assms, of 26] by (simp add: soldOffset_def)

lemma pick_range:
  assumes "0 \<le> s" and "arr \<noteq> []" and "length arr \<le> 4194304" and "pick s arr = (v, s')"
  shows "(\<exists>x \<in> set arr. v = Some x) \<and> 0 \<le> s'"
proof -
  obtain r s1 where rs: "rng s = (r, s1)" by (cases "rng s") auto
  from rng_range[OF assms(1) rs] have s1: "0 \<le> s1" and r: "0 \<le> r" "r \<le> 2147483647 / 2147483648"
    by simp_all
  have n: "0 < int (length arr)" "int (length arr) \<le> 4194304" using assms(2,3) by simp_all
  from scaled_floor_range[OF r n]
  have i: "0 \<le> \<lfloor>js_mul r (of_nat (length arr))\<rfloor>" "\<lfloor>js_mul r (of_nat (length arr))\<rfloor> < int (length arr)"
    by simp_all
  then have "nat \<lfloor>js_mul r (of_nat (length arr))\<rfloor> < length arr" by linarith
  then have mem: "arr ! nat \<lfloor>js_mul r (of_nat (length arr))\<rfloor> \<in> set arr" by (rule nth_mem)
  show ?thesis using assms(4) i s1 mem by (auto simp: pick_def rs Let_def)
qed

section \<open>Filtering\<close>

lemma grouped_Nil: "grouped lc mode [] = []"
  by (simp add: grouped_def group_map_def Map_keys_def sort_by_def)

lemma summaryRows_Nil: "summaryRows useRange mode [] = []"
  by (simp add: summaryRows_def installerSummary_def techSummary_def summarize_def sort_by_def)

lemma grand_Nil: "grand [] = \<lparr>count = 0, total = 0, commission = 0\<rparr>"
  by (simp add: grand_def)

lemma filtered_empty:
  "(\<forall>d \<in> set allData. soldByTech d \<notin> set selT) \<Longrightarrow> filtered allData selT selI = []"
  by (simp add: filtered_def filter_empty_conv)

text \<open>
  Claim C4. A record is in the filtered output exactly when it is an input record whose
  selling technician is among the selected technicians and whose installer is among the
  selected installers. When the selected technicians include no technician of any input
  record (an empty selection, for one), there are no groups and the grand total is zero.
\<close>

theorem filtered_both_selected:
  "(r \<in> set (filtered allData selT selI) \<longleftrightarrow>
      r \<in> set allData \<and> soldByTech r \<in> set selT \<and> installerName r \<in> set selI) \<and>
   ((\<forall>d \<in> set allData. soldByTech d \<notin> set selT) \<longrightarrow>
      grouped lc mode (filtered allData selT selI) = [] \<and>
      grand (summaryRows useRange mode (grouped lc mode (filtered allData selT selI)))
        = \<lparr>count = 0, total = 0, commission = 0\<rparr>)"
proof (intro conjI impI)
  show "r \<in> set (filtered allData selT selI) \<longleftrightarrow>
      r \<in> set allData \<and> soldByTech r \<in> set selT \<and> installerName r \<in> set selI"
    by (auto simp: filtered_def)
next
  assume none: "\<forall>d \<in> set allData. soldByTech d \<notin> set selT"
  then have e: "filtered allData selT selI = []"
    by (rule filtered_empty)
  show "grouped lc mode (filtered allData selT selI) = []"
    by (simp add: e grouped_Nil)
  show "grand (summaryRows useRange mode (grouped lc mode (filtered allData selT selI)))
        = \<lparr>count = 0, total = 0, commission = 0\<rparr>"
    by (simp add: e grouped_Nil summaryRows_Nil grand_Nil)
qed

theorem filtered_both_selected_witness:
  "grouped codeCompare Tech
     (filtered [install ''Austin'' ''Mike'' 1200, install ''Adam'' ''Josh'' 1250] [] INSTALLERS) = [] \<and>
   grand (summaryRows True Tech (grouped codeCompare Tech
     (filtered [install ''Austin'' ''Mike'' 1200, install ''Adam'' ''Josh'' 1250] [] INSTALLERS)))
     = \<lparr>count = 0, total = 0, commission = 0\<rparr>"
proof -
  have none: "\<forall>d \<in> set [install ''Austin'' ''Mike'' 1200, install ''Adam'' ''Josh'' 1250].
      soldByTech d \<notin> set []"
    by simp
  from filtered_both_selected
    [of "install ''Austin'' ''Mike'' 1200"
        "[install ''Austin'' ''Mike'' 1200, install ''Adam'' ''Josh'' 1250]" "[]" INSTALLERS
        codeCompare Tech True, THEN conjunct2, THEN mp, OF none]
  show ?thesis .
qed

section \<open>Group totals\<close>

text \<open>
  Claim C2, as amended. When the selected technicians and installers are the full rosters,
  every record names a technician and an installer of the rosters, and the invoice amounts
  are whole numbers whose absolute values sum to at most \<open>2^53\<close>, the group subtotals add
  up to the sum of all invoice amounts, and so does the grand total of the range summary.
\<close>

theorem grouped_total_whole_amounts:
  assumes "set selT = set TECHS" and "set selI = set INSTALLERS"
    and "\<forall>r \<in> set allData. soldByTech r \<in> set TECHS \<and> installerName r \<in> set INSTALLERS"
    and "\<forall>r \<in> set allData. invoiceAmount r \<in> \<int>"
    and "(\<Sum>r\<leftarrow>allData. \<bar>invoiceAmount r\<bar>) \<le> 2 ^ 53"
  shows "(\<Sum>g\<leftarrow>grouped lc mode (filtered allData selT selI). subtotal g)
           = (\<Sum>r\<leftarrow>allData. invoiceAmount r) \<and>
         total (grand (summaryRows True mode (grouped lc mode (filtered allData selT selI))))
           = (\<Sum>r\<leftarrow>allData. invoiceAmount r)"
proof -
  have "filtered allData selT selI = allData"
    using assms(1-3) by (intro filtered_all) simp
  then show ?thesis
    using grouped_subtotals_sum[OF assms(4,5)] grand_total_exact[OF assms(4,5)] by simp
qed

theorem grouped_total_whole_amounts_witness:
  "(\<Sum>g\<leftarrow>grouped codeCompare Tech
        (filtered [install ''Austin'' ''Mike'' 1200, install ''Adam'' ''Josh'' 1250,
                   install ''Austin'' ''Bubba'' 5200] TECHS INSTALLERS). subtotal g) = 7650 \<and>
   total (grand (summaryRows True Tech (grouped codeCompare Tech
        (filtered [install ''Austin'' ''Mike'' 1200, install ''Adam'' ''Josh'' 1250,
                   install ''Austin'' ''Bubba'' 5200] TECHS INSTALLERS)))) = 7650"
proof -
  have roster: "\<forall>r \<in> set [install ''Austin'' ''Mike'' 1200, install ''Adam'' ''Josh'' 1250,
      install ''Austin'' ''Bubba'' 5200].
      soldByTech r \<in> set TECHS \<and> installerName r \<in> set INSTALLERS"
    by (simp add: install_def TECHS_def INSTALLERS_def)
  have ints: "\<forall>r \<in> set [install ''Austin'' ''Mike'' 1200, install ''Adam'' ''Josh'' 1250,
      install ''Austin'' ''Bubba'' 5200]. invoiceAmount r \<in> \<int>"
    by (simp add: install_def)
  have bound: "(\<Sum>r\<leftarrow>[install ''Austin'' ''Mike'' 1200, install ''Adam'' ''Josh'' 1250,
      install ''Austin'' ''Bubba'' 5200]. \<bar>invoiceAmount r\<bar>) \<le> 2 ^ 53"
    by (simp add: install_def)
  have s: "(\<Sum>r\<leftarrow>[install ''Austin'' ''Mike'' 1200, install ''Adam'' ''Josh'' 1250,
      install ''Austin'' ''Bubba'' 5200]. invoiceAmount r) = 7650"
    by (simp add: install_def)
  from grouped_total_whole_amounts[OF refl refl roster ints bound, of codeCompare Tech]
  show ?thesis by (simp only: s)
qed

theorem grouped_total_counterexample:
  "total (grand (summaryRows True Tech (grouped codeCompare Tech
      (filtered [install ''Adam'' ''Mike'' (fl (3 / 10)), install ''Austin'' ''Mike'' (fl (2 / 10)),
                 install ''Austin'' ''Mike'' (fl (1 / 10))] TECHS INSTALLERS))))
     \<noteq> (\<Sum>r\<leftarrow>[install ''Adam'' ''Mike'' (fl (3 / 10)), install ''Austin'' ''Mike'' (fl (2 / 10)),
                 install ''Austin'' ''Mike'' (fl (1 / 10))]. invoiceAmount r) \<and>
   (\<Sum>g\<leftarrow>grouped codeCompare Tech
      (filtered [install ''Adam'' ''Mike'' (fl (3 / 10)), install ''Austin'' ''Mike'' (fl (2 / 10)),
                 install ''Austin'' ''Mike'' (fl (1 / 10))] TECHS INSTALLERS). subtotal g)
     \<noteq> (\<Sum>r\<leftarrow>[install ''Adam'' ''Mike'' (fl (3 / 10)), install ''Austin'' ''Mike'' (fl (2 / 10)),
                 install ''Austin'' ''Mike'' (fl (1 / 10))]. invoiceAmount r) \<and>
   total (grand (summaryRows True Tech (grouped codeCompare Tech
      (filtered [install ''Adam'' ''Mike'' (fl (3 / 10)), install ''Austin'' ''Mike'' (fl (2 / 10)),
                 install ''Austin'' ''Mike'' (fl (1 / 10))] TECHS INSTALLERS))))
     \<noteq> sum_amounts [install ''Adam'' ''Mike'' (fl (3 / 10)), install ''Austin'' ''Mike'' (fl (2 / 10)),
                 install ''Austin'' ''Mike'' (fl (1 / 10))]"
  by code_simp

section \<open>Ordering of the report\<close>




section \<open>Commission\<close>





section \<open>Reading the exported CSV back\<close>

lemma read_char_None: "read_char None c = None"
  by (simp add: read_char_def)

lemma read_char_FieldStart:
  "read_char (Some \<lparr>state = FieldStart, field = f, line = l, table = t\<rparr>) c =
     (if c = dquote then Some \<lparr>state = InField, field = [], line = l, table = t\<rparr> else None)"
  by (simp add: read_char_def)

lemma read_char_InField:
  "read_char (Some \<lparr>state = InField, field = f, line = l, table = t\<rparr>) c =
     (if c = dquote then Some \<lparr>state = QuoteSeen, field = f, line = l, table = t\<rparr>
      else Some \<lparr>state = InField, field = f @ [c], line = l, table = t\<rparr>)"
  by (simp add: read_char_def)

lemma read_char_QuoteSeen:
  "read_char (Some \<lparr>state = QuoteSeen, field = f, line = l, table = t\<rparr>) c =
     (if c = dquote then Some \<lparr>state = InField, field = f @ [dquote], line = l, table = t\<rparr>
      else if c = comma then Some \<lparr>state = FieldStart, field = [], line = l @ [f], table = t\<rparr>
      else if c = newline
      then Some \<lparr>state = FieldStart, field = [], line = [], table = t @ [l @ [f]]\<rparr>
      else None)"
  by (simp add: read_char_def)

lemmas read_char_simps =
  read_char_None read_char_FieldStart read_char_InField read_char_QuoteSeen

lemma escape_quotes_Nil: "escape_quotes [] = []"
  by (simp add: escape_quotes_def)

lemma escape_quotes_Cons:
  "escape_quotes (c # s) = (if c = dquote then [dquote, dquote] else [c]) @ escape_quotes s"
  by (simp add: escape_quotes_def)

lemma read_escaped:
  "foldl read_char (Some \<lparr>state = InField, field = f, line = l, table = t\<rparr>) (escape_quotes s)
     = Some \<lparr>state = InField, field = f @ s, line = l, table = t\<rparr>"
proof (induction s arbitrary: f)
  case Nil
  then show ?case by (simp add: escape_quotes_Nil)
next
  case (Cons c s)
  show ?case
    using Cons.IH[of "f @ [c]"] by (auto simp: escape_quotes_Cons read_char_simps)
qed

lemma read_quoted:
  "foldl read_char (Some \<lparr>state = FieldStart, field = [], line = l, table = t\<rparr>)
       ([dquote] @ escape_quotes s @ [dquote])
     = Some \<lparr>state = QuoteSeen, field = s, line = l, table = t\<rparr>"
  using read_escaped[of "[]" l t s] by (simp add: read_char_simps)

lemma read_line:
  assumes "ss \<noteq> []"
  shows "foldl read_char (Some \<lparr>state = FieldStart, field = [], line = l, table = t\<rparr>)
       (join [comma] (map (\<lambda>s. [dquote] @ escape_quotes s @ [dquote]) ss))
     = Some \<lparr>state = QuoteSeen, field = last ss, line = l @ butlast ss, table = t\<rparr>"
  using assms
proof (induction ss arbitrary: l rule: induct_list012)
  case 1
  then show ?case by simp
next
  case (2 s)
  show ?case using read_quoted[of l t s] by simp
next
  case (3 s s' ss)
  have "foldl read_char (Some \<lparr>state = FieldStart, field = [], line = l, table = t\<rparr>)
          ([dquote] @ escape_quotes s @ [dquote] @ [comma])
        = Some \<lparr>state = FieldStart, field = [], line = l @ [s], table = t\<rparr>"
    using read_quoted[of l t s]
    by (simp add: read_char_simps comma_def dquote_def flip: append_assoc)
  then show ?case using 3(2)[of "l @ [s]"] by simp
qed


lemma join_two: "join sep (x # y # ys) = x @ sep @ join sep (y # ys)"
  by simp

lemma read_table:
  assumes "rs \<noteq> []" and "\<forall>r \<in> set rs. r \<noteq> []"
  shows "foldl read_char (Some \<lparr>state = FieldStart, field = [], line = [], table = t\<rparr>)
       (join [newline]
          (map (\<lambda>r. join [comma] (map (\<lambda>s. [dquote] @ escape_quotes s @ [dquote]) r)) rs))
     = Some \<lparr>state = QuoteSeen, field = last (last rs), line = butlast (last rs),
             table = t @ butlast rs\<rparr>"
  using assms
proof (induction rs arbitrary: t rule: induct_list012)
  case 1
  then show ?case by simp
next
  case (2 r)
  then show ?case using read_line[of r "[]" t] by simp
next
  case (3 r r' rs)
  have r: "r \<noteq> []" using 3(4) by simp
  have "foldl read_char (Some \<lparr>state = FieldStart, field = [], line = [], table = t\<rparr>)
          (join [comma] (map (\<lambda>s. [dquote] @ escape_quotes s @ [dquote]) r) @ [newline])
        = Some \<lparr>state = FieldStart, field = [], line = [], table = t @ [r]\<rparr>"
    using read_line[OF r, of "[]" t] r
    by (simp add: read_char_simps comma_def dquote_def newline_def)
  then show ?case using 3(2)[of "t @ [r]"] 3(4) by simp
qed

lemma read_csv_rendered:
  assumes "rs \<noteq> []" and "\<forall>r \<in> set rs. r \<noteq> []"
  shows "read_csv (join [newline]
          (map (\<lambda>r. join [comma] (map (\<lambda>s. [dquote] @ escape_quotes s @ [dquote]) r)) rs))
     = Some rs"
  unfolding read_csv_def read_table[OF assms, of "[]"]
  using assms by simp

lemma csv_lines_shape:
  "csv_lines mode gs \<noteq> [] \<and> (\<forall>r \<in> set (csv_lines mode gs). length r = 8)"
  by (auto simp: csv_lines_def headers_def record_line_def subtotal_line_def Let_def)

lemma content_exportCSV:
  "content (exportCSV mode useRange rangeStart rangeEnd day gs) =
     join [newline]
       (map (\<lambda>r. join [comma] (map (\<lambda>s. [dquote] @ escape_quotes s @ [dquote]) r))
          (map (map String_of) (csv_lines mode gs)))"
  by (simp add: exportCSV_def Let_def comp_def csv_cell_def[abs_def])

lemma read_exportCSV:
  "read_csv (content (exportCSV mode useRange rangeStart rangeEnd day gs))
     = Some (map (map String_of) (csv_lines mode gs))"
  unfolding content_exportCSV
proof (rule read_csv_rendered)
  show "map (map String_of) (csv_lines mode gs) \<noteq> []"
    using csv_lines_shape[of mode gs] by simp
  show "\<forall>r \<in> set (map (map String_of) (csv_lines mode gs)). r \<noteq> []"
    using csv_lines_shape[of mode gs] by auto
qed

lemma unquote_csv_cell: "unquote (csv_cell c) = Some (String_of c)"
  using read_csv_rendered[of "[[String_of c]]"] by (simp add: unquote_def csv_cell_def)


lemma length_csv_lines:
  "length (csv_lines mode gs) = 1 + (\<Sum>g\<leftarrow>gs. length (rows g) + 1)"
  by (simp add: csv_lines_def length_concat comp_def)

text \<open>
  Claim C3. The exported text holds the header line and then, group by group, one line
  for every record of the group and one subtotal line. Every field is written between
  double quotes with each embedded double quote doubled, so reading the text back as CSV
  gives exactly the table of the cells' strings, and unquoting one written cell gives the
  cell's string. The customer name \<^verbatim>\<open>O"Brien\<close> is written \<^verbatim>\<open>"O""Brien"\<close> and read back as
  \<^verbatim>\<open>O"Brien\<close>.
\<close>

theorem csv_export_round_trip:
  \<open>read_csv (content (exportCSV mode useRange rangeStart rangeEnd day gs))
     = Some (map (map String_of) (csv_lines mode gs)) \<and>
   (\<forall>g \<in> set gs. subtotal_line mode g \<in> set (csv_lines mode gs) \<and>
      (\<forall>r \<in> set (rows g). record_line mode g r \<in> set (csv_lines mode gs))) \<and>
   length (csv_lines mode gs) = 1 + (\<Sum>g\<leftarrow>gs. length (rows g) + 1) \<and>
   unquote (csv_cell c) = Some (String_of c) \<and>
   csv_cell (Str ''O"Brien'') = ''"O""Brien"'' \<and>
   unquote ''"O""Brien"'' = Some ''O"Brien''\<close>
proof (intro conjI ballI)
  show "read_csv (content (exportCSV mode useRange rangeStart rangeEnd day gs))
     = Some (map (map String_of) (csv_lines mode gs))"
    by (rule read_exportCSV)
  show "length (csv_lines mode gs) = 1 + (\<Sum>g\<leftarrow>gs. length (rows g) + 1)"
    by (rule length_csv_lines)
  show "unquote (csv_cell c) = Some (String_of c)"
    by (rule unquote_csv_cell)
  show q: \<open>csv_cell (Str ''O"Brien'') = ''"O""Brien"''\<close>
    by (simp add: csv_cell_def String_of_def escape_quotes_def dquote_def)
  show \<open>unquote ''"O""Brien"'' = Some ''O"Brien''\<close>
    using unquote_csv_cell[of \<open>Str ''O"Brien''\<close>] by (simp add: q String_of_def)
next
  fix g assume "g \<in> set gs"
  then show "subtotal_line mode g \<in> set (csv_lines mode gs)"
    by (auto simp: csv_lines_def)
next
  fix g r assume "g \<in> set gs" "r \<in> set (rows g)"
  then show "record_line mode g r \<in> set (csv_lines mode gs)"
    by (auto simp: csv_lines_def)
qed

theorem csv_export_round_trip_witness:
  \<open>read_csv (content (exportCSV Tech False [] [] ''2024-01-10''
       [\<lparr>label = ''Adam'',
         rows = [(install ''Adam'' ''Josh'' 1250)\<lparr>customerName := ''O"Brien''\<rparr>],
         subtotal = 1250\<rparr>]))
     = Some [[''Group'', ''Sales Tech'', ''Invoice $$'', ''COMMISSION'', ''Customer'',
              ''Installer'', ''Sold Date'', ''Install Date''],
             [''Adam'', ''Adam'', ''1250'', ''62.5'', ''O"Brien'', ''Josh'',
              ''2024-01-05'', ''2024-01-10''],
             [''Subtotal for Adam'', [], ''1250'', ''62.5'', [], [], [], []]] \<and>
   subtotal_line Tech \<lparr>label = ''Adam'',
         rows = [(install ''Adam'' ''Josh'' 1250)\<lparr>customerName := ''O"Brien''\<rparr>],
         subtotal = 1250\<rparr>
     \<in> set (csv_lines Tech [\<lparr>label = ''Adam'',
         rows = [(install ''Adam'' ''Josh'' 1250)\<lparr>customerName := ''O"Brien''\<rparr>],
         subtotal = 1250\<rparr>])\<close>
proof -
  let ?g = \<open>\<lparr>label = ''Adam'',
         rows = [(install ''Adam'' ''Josh'' 1250)\<lparr>customerName := ''O"Brien''\<rparr>],
         subtotal = 1250\<rparr>\<close>
  note rt = csv_export_round_trip[of Tech False "[]" "[]" "''2024-01-10''" "[?g]"]
  have cells: \<open>map (map String_of) (csv_lines Tech [?g])
     = [[''Group'', ''Sales Tech'', ''Invoice $$'', ''COMMISSION'', ''Customer'',
              ''Installer'', ''Sold Date'', ''Install Date''],
             [''Adam'', ''Adam'', ''1250'', ''62.5'', ''O"Brien'', ''Josh'',
              ''2024-01-05'', ''2024-01-10''],
             [''Subtotal for Adam'', [], ''1250'', ''62.5'', [], [], [], []]]\<close>
    by code_simp
  have mem: "?g \<in> set [?g]" by simp
  from rt[THEN conjunct1] rt[THEN conjunct2, THEN conjunct1, rule_format, OF mem, THEN conjunct1]
  show ?thesis by (simp only: cells)
qed

section \<open>The generated records\<close>

lemma rng_state: "0 \<le> s \<Longrightarrow> rng s = (r, s') \<Longrightarrow> 0 \<le> s'"
  using rng_range[of s r s'] by simp

lemma dollars_state:
  assumes "0 \<le> s" and "dollars s a b c = (amount, s')"
  shows "0 \<le> s'"
proof -
  obtain r s1 where rs: "rng s = (r, s1)" by (cases "rng s") auto
  then have "s' = s1" using assms(2) by (simp add: dollars_def Let_def)
  then show ?thesis using rng_state[OF assms(1) rs] by simp
qed

lemma randomName_state:
  assumes "0 \<le> s" and "randomName s = (customer, s')"
  shows "0 \<le> s'"
proof -
  obtain l s1 where l: "pick s last_names = (l, s1)" by (cases "pick s last_names") auto
  obtain f s2 where f: "pick s1 first_names = (f, s2)" by (cases "pick s1 first_names") auto
  have "0 \<le> s1" using pick_range[OF assms(1) _ _ l] by (simp add: last_names_def)
  then have "0 \<le> s2" using pick_range[OF _ _ _ f] by (simp add: first_names_def)
  moreover have "s' = s2" using assms(2) by (simp add: randomName_def l f)
  ultimately show ?thesis by simp
qed

lemma demo_record_ok:
  assumes s: "0 \<le> s"
    and p: "parse_iso_date dateISO = Some ymd"
    and tz: "- 1440 \<le> tz" "tz \<le> 1440"
  shows "\<exists>r s'. demo_record tz dateISO installer s = Some (r, s') \<and> 0 \<le> s' \<and>
           soldByTech r \<in> set TECHS \<and> installerName r = installer \<and>
           installDate r = dateISO \<and> date r = dateISO"
proof -
  obtain r s1 where rs: "rng s = (r, s1)" by (cases "rng s") auto
  from rng_range[OF s rs] have s1: "0 \<le> s1" and r: "0 \<le> r" "r \<le> 2147483647 / 2147483648"
    by simp_all
  from soldOffset_range[OF r] have off: "- 1000000 \<le> soldOffset r" "soldOffset r \<le> 1000000"
    by simp_all
  obtain y m d where ymd: "ymd = (y, m, d)" by (cases ymd) auto
  from addDaysISO_Some[OF p[unfolded ymd] tz off]
  obtain sold where sold: "addDaysISO tz dateISO (soldOffset r) = Some sold" by blast
  obtain amount s2 where a: "dollars s1 1200 5200 50 = (amount, s2)"
    by (cases "dollars s1 1200 5200 50") auto
  obtain customer s3 where c: "randomName s2 = (customer, s3)" by (cases "randomName s2") auto
  obtain tech s4 where t: "pick s3 TECHS = (tech, s4)" by (cases "pick s3 TECHS") auto
  have s2: "0 \<le> s2" using dollars_state[OF s1 a] .
  have s3: "0 \<le> s3" using randomName_state[OF s2 c] .
  from pick_range[OF s3 _ _ t] obtain x where x: "x \<in> set TECHS" "tech = Some x" and s4: "0 \<le> s4"
    by (auto simp: TECHS_def)
  have "demo_record tz dateISO installer s =
      Some (\<lparr>date = dateISO, installDate = dateISO, soldDate = sold, invoiceAmount = amount,
              customerName = customer, installerName = installer, soldByTech = x\<rparr>, s4)"
    by (simp add: demo_record_def rs sold a c t x(2) string_or_undefined_def)
  then show ?thesis using s4 x(1) by simp
qed

lemma installer_loop_ok:
  assumes p: "parse_iso_date dateISO = Some ymd"
    and tz: "- 1440 \<le> tz" "tz \<le> 1440"
    and s: "0 \<le> s"
  shows "\<exists>new s'. installer_loop tz dateISO installer n s records = Some (records @ new, s') \<and>
           0 \<le> s' \<and> map installerName new = replicate n installer \<and>
           (\<forall>r \<in> set new. soldByTech r \<in> set TECHS \<and> installDate r = dateISO \<and> date r = dateISO)"
  using s
proof (induction n arbitrary: s records)
  case 0
  then show ?case by simp
next
  case (Suc n)
  from demo_record_ok[OF Suc.prems p tz, of installer] obtain r s1 where
    r: "demo_record tz dateISO installer s = Some (r, s1)" "0 \<le> s1"
      "soldByTech r \<in> set TECHS" "installerName r = installer"
      "installDate r = dateISO" "date r = dateISO" by blast
  from Suc.IH[OF r(2), of "records @ [r]"] obtain new s' where
    n: "installer_loop tz dateISO installer n s1 (records @ [r]) = Some ((records @ [r]) @ new, s')"
      "0 \<le> s'" "map installerName new = replicate n installer"
      "\<forall>r \<in> set new. soldByTech r \<in> set TECHS \<and> installDate r = dateISO \<and> date r = dateISO"
    by blast
  have "installer_loop tz dateISO installer (Suc n) s records = Some (records @ (r # new), s')"
    using r(1) n(1) by simp
  moreover have "map installerName (r # new) = replicate (Suc n) installer"
    using r(4) n(3) by simp
  moreover have "\<forall>x \<in> set (r # new).
      soldByTech x \<in> set TECHS \<and> installDate x = dateISO \<and> date x = dateISO"
    using r(3,5,6) n(4) by simp
  ultimately show ?case using n(2) by blast
qed

lemma installers_loop_ok:
  assumes p: "parse_iso_date dateISO = Some ymd"
    and tz: "- 1440 \<le> tz" "tz \<le> 1440"
    and s: "0 \<le> s"
  shows "\<exists>new s'. installers_loop tz dateISO installers s records = Some (records @ new, s') \<and>
           0 \<le> s' \<and> map installerName new = concat (map (\<lambda>i. [i, i]) installers) \<and>
           (\<forall>r \<in> set new. soldByTech r \<in> set TECHS \<and> installDate r = dateISO \<and> date r = dateISO)"
  using s
proof (induction installers arbitrary: s records)
  case Nil
  then show ?case by simp
next
  case (Cons i rest)
  from installer_loop_ok[OF p tz Cons.prems, of i 2 records] obtain new1 s1 where
    a: "installer_loop tz dateISO i 2 s records = Some (records @ new1, s1)" "0 \<le> s1"
      "map installerName new1 = replicate 2 i"
      "\<forall>r \<in> set new1. soldByTech r \<in> set TECHS \<and> installDate r = dateISO \<and> date r = dateISO"
    by blast
  from Cons.IH[OF a(2), of "records @ new1"] obtain new2 s2 where
    b: "installers_loop tz dateISO rest s1 (records @ new1) = Some ((records @ new1) @ new2, s2)"
      "0 \<le> s2" "map installerName new2 = concat (map (\<lambda>i. [i, i]) rest)"
      "\<forall>r \<in> set new2. soldByTech r \<in> set TECHS \<and> installDate r = dateISO \<and> date r = dateISO"
    by blast
  have "installers_loop tz dateISO (i # rest) s records = Some (records @ (new1 @ new2), s2)"
    using a(1) b(1) by simp
  moreover have "map installerName (new1 @ new2) = concat (map (\<lambda>i. [i, i]) (i # rest))"
    using a(3) b(3) by (simp add: numeral_2_eq_2)
  moreover have "\<forall>r \<in> set (new1 @ new2).
      soldByTech r \<in> set TECHS \<and> installDate r = dateISO \<and> date r = dateISO"
    using a(4) b(4) by auto
  ultimately show ?case using b(2) by blast
qed

text \<open>
  Claim C9. For a date \<^verbatim>\<open>YYYY-MM-DD\<close> (and a host time zone within a day of UTC) the
  generator returns records, two for each configured installer in the order of the
  configuration; each has a selling technician of the technician roster, an installer
  of the installer set and the requested date as its install date, so the filter with
  both rosters selected keeps all of them.
\<close>

theorem demo_records_reference_rosters:
  assumes "parse_iso_date dateISO = Some ymd" and "- 1440 \<le> tz" and "tz \<le> 1440"
  shows "\<exists>records. fetchInstallsDemo tz dateISO = Some records \<and>
           map installerName records = concat (map (\<lambda>i. [i, i]) INSTALLERS) \<and>
           (\<forall>r \<in> set records. soldByTech r \<in> set TECHS \<and> installerName r \<in> set INSTALLERS \<and>
              installDate r = dateISO) \<and>
           filtered records TECHS INSTALLERS = records"
proof -
  have "0 \<le> seededRandom (strSeed dateISO)"
    using seededRandom_range[OF strSeed_nonneg, of dateISO] by simp
  from installers_loop_ok[OF assms this, of INSTALLERS "[]"] obtain records s' where
    l: "installers_loop tz dateISO INSTALLERS (seededRandom (strSeed dateISO)) [] = Some (records, s')"
      "map installerName records = concat (map (\<lambda>i. [i, i]) INSTALLERS)"
      "\<forall>r \<in> set records. soldByTech r \<in> set TECHS \<and> installDate r = dateISO \<and> date r = dateISO"
    by auto
  have f: "fetchInstallsDemo tz dateISO = Some records"
    by (simp add: fetchInstallsDemo_def l(1))
  have "set (map installerName records) = set INSTALLERS"
    unfolding l(2) by auto
  then have i: "\<forall>r \<in> set records. installerName r \<in> set INSTALLERS" by auto
  have all: "\<forall>r \<in> set records. soldByTech r \<in> set TECHS \<and> installerName r \<in> set INSTALLERS \<and>
              installDate r = dateISO"
    using l(3) i by blast
  then have "filtered records TECHS INSTALLERS = records"
    by (intro filtered_all) blast
  then show ?thesis using f l(2) all by blast
qed

theorem demo_records_reference_rosters_witness:
  "\<exists>records. fetchInstallsDemo (- 300) ''2024-01-10'' = Some records \<and>
     map installerName records
       = [''Mike'', ''Mike'', ''Steven'', ''Steven'', ''Bubba'', ''Bubba'', ''Josh'', ''Josh''] \<and>
     length records = 8 \<and>
     filtered records TECHS INSTALLERS = records"
proof -
  have p: "parse_iso_date ''2024-01-10'' = Some (2024, 1, 10)"
    by code_simp
  from demo_records_reference_rosters[OF p, of "- 300"] obtain records where
    r: "fetchInstallsDemo (- 300) ''2024-01-10'' = Some records"
      "map installerName records = concat (map (\<lambda>i. [i, i]) INSTALLERS)"
      "filtered records TECHS INSTALLERS = records"
    by auto
  have n: "map installerName records
       = [''Mike'', ''Mike'', ''Steven'', ''Steven'', ''Bubba'', ''Bubba'', ''Josh'', ''Josh'']"
    unfolding r(2) by (simp add: INSTALLERS_def)
  have len: "length records = 8" using arg_cong[OF n, of length] by simp
  show ?thesis by (intro exI[of _ records] conjI r(1) n len r(3))
qed

section \<open>The sold date\<close>

text \<open>
  Claim C6 (the code departs from it). \<^verbatim>\<open>addDaysISO\<close> reads the date as local midnight,
  moves it in local time and prints the UTC date. At or behind UTC the printed date is the
  install date moved back by the offset; ahead of UTC (here one hour: \<open>tz = 60\<close>) local
  midnight is still the previous day in UTC, and the printed date is one day earlier:
  the install date 2024-01-10 moved back by 5 days gives 2024-01-04 and not 2024-01-05.
\<close>

theorem addDaysISO_ahead_of_UTC:
  "addDaysISO 60 ''2024-01-10'' (- 5) = Some ''2024-01-04'' \<and>
   addDaysISO 0 ''2024-01-10'' (- 5) = Some ''2024-01-05'' \<and>
   addDaysISO (- 300) ''2024-01-10'' (- 5) = Some ''2024-01-05''"
  by code_simp

section \<open>Failures of the proxy function\<close>

lemma requests_differ:
  "token_request clientId clientSecret \<noteq> technicians_request baseUrl tenantId appKey token"
  by (simp add: token_request_def technicians_request_def)

lemma handler_try_calls:
  "fst (handler_try fetch parse baseUrl tenantId appKey clientId clientSecret) = [token_request clientId clientSecret]
   \<or> (\<exists>token. fst (handler_try fetch parse baseUrl tenantId appKey clientId clientSecret)
         = [token_request clientId clientSecret, technicians_request baseUrl tenantId appKey token])"
  by (auto simp: handler_try_def Let_def split: outcome.splits)

lemma handler_calls:
  "length (fst (handler env fetch parse)) \<le> 2 \<and> distinct (fst (handler env fetch parse))"
proof (cases "config env")
  case None
  then show ?thesis by (simp add: handler_def)
next
  case (Some cfg)
  obtain baseUrl tenantId appKey clientId clientSecret
    where cfg: "cfg = (baseUrl, tenantId, appKey, clientId, clientSecret)"
    by (cases cfg) auto
  obtain calls res where t: "handler_try fetch parse baseUrl tenantId appKey clientId clientSecret = (calls, res)"
    by (cases "handler_try fetch parse baseUrl tenantId appKey clientId clientSecret") auto
  have h: "fst (handler env fetch parse) = calls"
    by (cases res) (simp_all add: handler_def Some cfg t)
  from handler_try_calls[of fetch parse baseUrl tenantId appKey clientId clientSecret]
  show ?thesis unfolding h using requests_differ by (auto simp: t)
qed

text \<open>
  Claim C8. When a required configuration value is missing or empty the handler answers
  500 with an error message and makes no request. When the token endpoint answers with a
  status outside 200..299 the handler answers with that status and that body text, having
  made the token request only; when the technicians endpoint does, it answers with that
  status and that body text, having made each of the two requests once. In every case at
  most two requests are made and none is made twice.
\<close>

theorem upstream_failure_surfaced:
  "(config env = None \<longrightarrow>
      handler env fetch parse =
        ([], \<lparr>statusCode = 500,
               body = JSON_stringify (JObject [(''error'', JString missing_env_message)])\<rparr>)) \<and>
   (config env = Some (baseUrl, tenantId, appKey, clientId, clientSecret) \<and>
    fetch (token_request clientId clientSecret) = Resolved tokenResp \<and> \<not> ok tokenResp \<longrightarrow>
      handler env fetch parse =
        ([token_request clientId clientSecret],
         \<lparr>statusCode = status tokenResp, body = Text (bodyText tokenResp)\<rparr>)) \<and>
   (config env = Some (baseUrl, tenantId, appKey, clientId, clientSecret) \<and>
    fetch (token_request clientId clientSecret) = Resolved tokenResp \<and> ok tokenResp \<and>
    json parse tokenResp = Resolved tokenJson \<and> get tokenJson ''access_token'' = Resolved token \<and>
    fetch (technicians_request baseUrl tenantId appKey token) = Resolved resp \<and> \<not> ok resp \<longrightarrow>
      handler env fetch parse =
        ([token_request clientId clientSecret, technicians_request baseUrl tenantId appKey token],
         \<lparr>statusCode = status resp, body = Text (bodyText resp)\<rparr>)) \<and>
   length (fst (handler env fetch parse)) \<le> 2 \<and> distinct (fst (handler env fetch parse))"
proof (intro conjI impI)
  assume "config env = None"
  then show "handler env fetch parse =
        ([], \<lparr>statusCode = 500,
               body = JSON_stringify (JObject [(''error'', JString missing_env_message)])\<rparr>)"
    by (simp add: handler_def)
next
  assume "config env = Some (baseUrl, tenantId, appKey, clientId, clientSecret) \<and>
    fetch (token_request clientId clientSecret) = Resolved tokenResp \<and> \<not> ok tokenResp"
  then show "handler env fetch parse =
        ([token_request clientId clientSecret],
         \<lparr>statusCode = status tokenResp, body = Text (bodyText tokenResp)\<rparr>)"
    by (simp add: handler_def handler_try_def Let_def)
next
  assume "config env = Some (baseUrl, tenantId, appKey, clientId, clientSecret) \<and>
    fetch (token_request clientId clientSecret) = Resolved tokenResp \<and> ok tokenResp \<and>
    json parse tokenResp = Resolved tokenJson \<and> get tokenJson ''access_token'' = Resolved token \<and>
    fetch (technicians_request baseUrl tenantId appKey token) = Resolved resp \<and> \<not> ok resp"
  then show "handler env fetch parse =
        ([token_request clientId clientSecret, technicians_request baseUrl tenantId appKey token],
         \<lparr>statusCode = status resp, body = Text (bodyText resp)\<rparr>)"
    by (simp add: handler_def handler_try_def Let_def)
next
  show "length (fst (handler env fetch parse)) \<le> 2"
    using handler_calls by blast
  show "distinct (fst (handler env fetch parse))"
    using handler_calls by blast
qed


lemma config_example:
  "config example_env = Some (''https://api.servicetitan.io'', ''42'', ''ak'', ''cid'', ''s3cret&'')"
  by (simp add: config_def example_env_def absent_def)

lemma fetch_example_token:
  "example_fetch a b (token_request clientId clientSecret) = a"
  by (simp add: example_fetch_def token_request_def)

lemma fetch_example_technicians:
  "example_fetch a b (technicians_request ''https://api.servicetitan.io'' ''42'' appKey token) = b"
  by (simp add: example_fetch_def technicians_request_def)

lemma fetch_example_functions: "example_fetch a b functions_request = b"
  by (simp add: example_fetch_def functions_request_def)

lemma parse_example:
  "example_parse p ''token'' = Resolved (JObject [(''access_token'', JString ''abc'')])"
  "example_parse p ''payload'' = Resolved p"
  by (simp_all add: example_parse_def)

theorem upstream_failure_surfaced_witness:
  "handler (example_env\<lparr>ST_APP_KEY := Some []\<rparr>)
      (example_fetch (Resolved \<lparr>status = 200, bodyText = ''token''\<rparr>)
                     (Resolved \<lparr>status = 200, bodyText = ''payload''\<rparr>))
      (example_parse JNull)
     = ([], \<lparr>statusCode = 500,
             body = JSON_stringify (JObject [(''error'', JString missing_env_message)])\<rparr>) \<and>
   handler example_env
      (example_fetch (Resolved \<lparr>status = 401, bodyText = ''denied''\<rparr>)
                     (Resolved \<lparr>status = 200, bodyText = ''payload''\<rparr>))
      (example_parse JNull)
     = ([token_request ''cid'' ''s3cret&''], \<lparr>statusCode = 401, body = Text ''denied''\<rparr>) \<and>
   handler example_env
      (example_fetch (Resolved \<lparr>status = 200, bodyText = ''token''\<rparr>)
                     (Resolved \<lparr>status = 503, bodyText = ''busy''\<rparr>))
      (example_parse JNull)
     = ([token_request ''cid'' ''s3cret&'',
         technicians_request ''https://api.servicetitan.io'' ''42'' ''ak'' (JString ''abc'')],
        \<lparr>statusCode = 503, body = Text ''busy''\<rparr>)"
proof (intro conjI)
  have none: "config (example_env\<lparr>ST_APP_KEY := Some []\<rparr>) = None"
    by (simp add: config_def example_env_def absent_def)
  from upstream_failure_surfaced[where env = "example_env\<lparr>ST_APP_KEY := Some []\<rparr>",
      THEN conjunct1, THEN mp, OF none]
  show "handler (example_env\<lparr>ST_APP_KEY := Some []\<rparr>)
      (example_fetch (Resolved \<lparr>status = 200, bodyText = ''token''\<rparr>)
                     (Resolved \<lparr>status = 200, bodyText = ''payload''\<rparr>))
      (example_parse JNull)
     = ([], \<lparr>statusCode = 500,
             body = JSON_stringify (JObject [(''error'', JString missing_env_message)])\<rparr>)" .
next
  let ?fetch = "example_fetch (Resolved \<lparr>status = 401, bodyText = ''denied''\<rparr>)
                     (Resolved \<lparr>status = 200, bodyText = ''payload''\<rparr>)"
  have h: "config example_env = Some (''https://api.servicetitan.io'', ''42'', ''ak'', ''cid'', ''s3cret&'') \<and>
    ?fetch (token_request ''cid'' ''s3cret&'') = Resolved \<lparr>status = 401, bodyText = ''denied''\<rparr> \<and>
    \<not> ok \<lparr>status = 401, bodyText = ''denied''\<rparr>"
    by (simp add: config_example fetch_example_token ok_def)
  from upstream_failure_surfaced[where env = example_env and fetch = ?fetch
      and parse = "example_parse JNull" and baseUrl = "''https://api.servicetitan.io''"
      and tenantId = "''42''" and appKey = "''ak''" and clientId = "''cid''"
      and clientSecret = "''s3cret&''"
      and tokenResp = "\<lparr>status = 401, bodyText = ''denied''\<rparr>",
      THEN conjunct2, THEN conjunct1, THEN mp, OF h]
  show "handler example_env ?fetch (example_parse JNull)
     = ([token_request ''cid'' ''s3cret&''], \<lparr>statusCode = 401, body = Text ''denied''\<rparr>)"
    by simp
next
  let ?fetch = "example_fetch (Resolved \<lparr>status = 200, bodyText = ''token''\<rparr>)
                     (Resolved \<lparr>status = 503, bodyText = ''busy''\<rparr>)"
  have h: "config example_env = Some (''https://api.servicetitan.io'', ''42'', ''ak'', ''cid'', ''s3cret&'') \<and>
    ?fetch (token_request ''cid'' ''s3cret&'') = Resolved \<lparr>status = 200, bodyText = ''token''\<rparr> \<and>
    ok \<lparr>status = 200, bodyText = ''token''\<rparr> \<and>
    json (example_parse JNull) \<lparr>status = 200, bodyText = ''token''\<rparr>
      = Resolved (JObject [(''access_token'', JString ''abc'')]) \<and>
    get (JObject [(''access_token'', JString ''abc'')]) ''access_token'' = Resolved (JString ''abc'') \<and>
    ?fetch (technicians_request ''https://api.servicetitan.io'' ''42'' ''ak'' (JString ''abc''))
      = Resolved \<lparr>status = 503, bodyText = ''busy''\<rparr> \<and>
    \<not> ok \<lparr>status = 503, bodyText = ''busy''\<rparr>"
    by (simp add: config_example fetch_example_token fetch_example_technicians ok_def json_def
        parse_example get_def property_def)
  from upstream_failure_surfaced[where env = example_env and fetch = ?fetch
      and parse = "example_parse JNull" and baseUrl = "''https://api.servicetitan.io''"
      and tenantId = "''42''" and appKey = "''ak''" and clientId = "''cid''"
      and clientSecret = "''s3cret&''"
      and tokenResp = "\<lparr>status = 200, bodyText = ''token''\<rparr>"
      and tokenJson = "JObject [(''access_token'', JString ''abc'')]"
      and token = "JString ''abc''" and resp = "\<lparr>status = 503, bodyText = ''busy''\<rparr>",
      THEN conjunct2, THEN conjunct2, THEN conjunct1, THEN mp, OF h]
  show "handler example_env ?fetch (example_parse JNull)
     = ([token_request ''cid'' ''s3cret&'',
         technicians_request ''https://api.servicetitan.io'' ''42'' ''ak'' (JString ''abc'')],
        \<lparr>statusCode = 503, body = Text ''busy''\<rparr>)"
    by simp
qed


section \<open>The successful answer\<close>

lemma handler_200:
  assumes "statusCode (snd (handler env fetch parse)) = 200"
  shows "\<exists>baseUrl tenantId appKey clientId clientSecret tokenResp tokenJson token resp data.
           config env = Some (baseUrl, tenantId, appKey, clientId, clientSecret) \<and>
           fetch (token_request clientId clientSecret) = Resolved tokenResp \<and> ok tokenResp \<and>
           json parse tokenResp = Resolved tokenJson \<and>
           get tokenJson ''access_token'' = Resolved token \<and>
           fetch (technicians_request baseUrl tenantId appKey token) = Resolved resp \<and> ok resp \<and>
           json parse resp = Resolved data \<and>
           snd (handler env fetch parse)
             = \<lparr>statusCode = 200, body = JSON_stringify (success_body tenantId data)\<rparr>"
proof (cases "config env")
  case None
  then show ?thesis using assms by (simp add: handler_def)
next
  case (Some cfg)
  obtain baseUrl tenantId appKey clientId clientSecret
    where cfg: "cfg = (baseUrl, tenantId, appKey, clientId, clientSecret)"
    by (cases cfg) auto
  note defs = handler_def Some cfg handler_try_def Let_def
  show ?thesis
  proof (cases "fetch (token_request clientId clientSecret)")
    case (Rejected e)
    then show ?thesis using assms by (simp add: defs)
  next
    case tr: (Resolved tokenResp)
    show ?thesis
    proof (cases "ok tokenResp")
      case False
      then show ?thesis using assms tr by (simp add: defs ok_def)
    next
      case okt: True
      show ?thesis
      proof (cases "json parse tokenResp")
        case (Rejected e)
        then show ?thesis using assms tr okt by (simp add: defs)
      next
        case tj: (Resolved tokenJson)
        show ?thesis
        proof (cases "get tokenJson ''access_token''")
          case (Rejected e)
          then show ?thesis using assms tr okt tj by (simp add: defs)
        next
          case tk: (Resolved token)
          show ?thesis
          proof (cases "fetch (technicians_request baseUrl tenantId appKey token)")
            case (Rejected e)
            then show ?thesis using assms tr okt tj tk by (simp add: defs)
          next
            case rr: (Resolved resp)
            show ?thesis
            proof (cases "ok resp")
              case False
              then show ?thesis using assms tr okt tj tk rr by (simp add: defs ok_def)
            next
              case okr: True
              show ?thesis
              proof (cases "json parse resp")
                case (Rejected e)
                then show ?thesis using assms tr okt tj tk rr okr by (simp add: defs)
              next
                case d: (Resolved data)
                have "snd (handler env fetch parse)
                    = \<lparr>statusCode = 200, body = JSON_stringify (success_body tenantId data)\<rparr>"
                  using tr okt tj tk rr okr d by (simp add: defs)
                then show ?thesis using Some cfg tr okt tj tk rr okr d by blast
              qed
            qed
          qed
        qed
      qed
    qed
  qed
qed

lemma success_body_fields:
  "property (success_body tenantId data) ''count''
     = or_else (opt_get (opt_get data ''data'') ''length'') (JNumber 0)"
  "property (success_body tenantId data) ''technicians''
     = or_else (opt_get data ''data'') (JArray [])"
  by (simp_all add: success_body_def property_def)

lemma opt_get_length_array: "opt_get (JArray xs) ''length'' = JNumber (of_nat (length xs))"
  by (simp add: opt_get_def property_def)

lemma truthy_simps:
  "truthy (JArray xs)" "truthy (JNumber n) \<longleftrightarrow> n \<noteq> 0" "\<not> truthy JUndefined" "\<not> truthy JNull"
  by (simp_all add: truthy_def)

lemma success_body_array:
  assumes "opt_get data ''data'' = JArray xs"
  shows "property (success_body tenantId data) ''count'' = JNumber (of_nat (length xs))"
    and "property (success_body tenantId data) ''technicians'' = JArray xs"
  by (simp_all add: success_body_fields assms opt_get_length_array or_else_def truthy_simps)

lemma falsy_length:
  assumes "\<not> truthy v"
  shows "\<not> truthy (opt_get v ''length'')"
proof (cases v)
  case (JString s)
  then show ?thesis using assms by (simp add: truthy_def opt_get_def property_def)
qed (use assms in \<open>simp_all add: truthy_def opt_get_def property_def\<close>)

lemma success_body_falsy:
  assumes "\<not> truthy (opt_get data ''data'')"
  shows "property (success_body tenantId data) ''count'' = JNumber 0"
    and "property (success_body tenantId data) ''technicians'' = JArray []"
  using assms falsy_length[OF assms]
  by (simp_all add: success_body_fields or_else_def)


text \<open>
  Claim C10, as amended. A 200 answer comes from the path on which both requests succeeded
  and the technicians response parsed to a payload. If the payload's \<open>data\<close> is an array,
  \<open>technicians\<close> is that array and \<open>count\<close> is its length; if \<open>data\<close> is missing, null or
  otherwise falsy (or the payload itself is null), \<open>technicians\<close> is the empty array and
  \<open>count\<close> is 0.
\<close>

theorem success_count_and_technicians:
  "statusCode (snd (handler env fetch parse)) = 200 \<longrightarrow>
     (\<exists>tenantId resp data.
        (\<exists>baseUrl appKey token.
           fetch (technicians_request baseUrl tenantId appKey token) = Resolved resp) \<and>
        json parse resp = Resolved data \<and>
        body (snd (handler env fetch parse)) = JSON_stringify (success_body tenantId data) \<and>
        (\<forall>xs. opt_get data ''data'' = JArray xs \<longrightarrow>
           property (success_body tenantId data) ''technicians'' = JArray xs \<and>
           property (success_body tenantId data) ''count'' = JNumber (of_nat (length xs))) \<and>
        (\<not> truthy (opt_get data ''data'') \<longrightarrow>
           property (success_body tenantId data) ''technicians'' = JArray [] \<and>
           property (success_body tenantId data) ''count'' = JNumber 0))"
proof
  assume "statusCode (snd (handler env fetch parse)) = 200"
  from handler_200[OF this] obtain baseUrl tenantId appKey token resp data where
    h: "fetch (technicians_request baseUrl tenantId appKey token) = Resolved resp"
      "json parse resp = Resolved data"
      "snd (handler env fetch parse)
         = \<lparr>statusCode = 200, body = JSON_stringify (success_body tenantId data)\<rparr>"
    by blast
  have b: "body (snd (handler env fetch parse)) = JSON_stringify (success_body tenantId data)"
    by (simp add: h(3))
  have a: "\<forall>xs. opt_get data ''data'' = JArray xs \<longrightarrow>
           property (success_body tenantId data) ''technicians'' = JArray xs \<and>
           property (success_body tenantId data) ''count'' = JNumber (of_nat (length xs))"
    using success_body_array by blast
  have f: "\<not> truthy (opt_get data ''data'') \<longrightarrow>
           property (success_body tenantId data) ''technicians'' = JArray [] \<and>
           property (success_body tenantId data) ''count'' = JNumber 0"
    using success_body_falsy by blast
  from h(1,2) b a f
  show "\<exists>tenantId resp data.
        (\<exists>baseUrl appKey token.
           fetch (technicians_request baseUrl tenantId appKey token) = Resolved resp) \<and>
        json parse resp = Resolved data \<and>
        body (snd (handler env fetch parse)) = JSON_stringify (success_body tenantId data) \<and>
        (\<forall>xs. opt_get data ''data'' = JArray xs \<longrightarrow>
           property (success_body tenantId data) ''technicians'' = JArray xs \<and>
           property (success_body tenantId data) ''count'' = JNumber (of_nat (length xs))) \<and>
        (\<not> truthy (opt_get data ''data'') \<longrightarrow>
           property (success_body tenantId data) ''technicians'' = JArray [] \<and>
           property (success_body tenantId data) ''count'' = JNumber 0)"
    by blast
qed

lemma handler_example_success:
  "handler example_env
      (example_fetch (Resolved \<lparr>status = 200, bodyText = ''token''\<rparr>)
                     (Resolved \<lparr>status = 200, bodyText = ''payload''\<rparr>))
      (example_parse data)
     = ([token_request ''cid'' ''s3cret&'',
         technicians_request ''https://api.servicetitan.io'' ''42'' ''ak'' (JString ''abc'')],
        \<lparr>statusCode = 200, body = JSON_stringify (success_body ''42'' data)\<rparr>)"
  by (simp add: handler_def config_example handler_try_def Let_def fetch_example_token
      fetch_example_technicians ok_def json_def parse_example get_def property_def)

theorem success_count_and_technicians_witness:
  "snd (handler example_env
      (example_fetch (Resolved \<lparr>status = 200, bodyText = ''token''\<rparr>)
                     (Resolved \<lparr>status = 200, bodyText = ''payload''\<rparr>))
      (example_parse (JObject [(''data'', JArray [JObject [(''id'', JNumber 7)], JNull])])))
     = \<lparr>statusCode = 200,
        body = JSON_stringify (JObject
          [(''pathUsed'', JString ''/settings/v2/tenant/42/technicians''),
           (''authMode'', JString ''bearer+appkey''),
           (''count'', JNumber 2),
           (''technicians'', JArray [JObject [(''id'', JNumber 7)], JNull])])\<rparr> \<and>
   (\<exists>tenantId data.
      body (snd (handler example_env
        (example_fetch (Resolved \<lparr>status = 200, bodyText = ''token''\<rparr>)
                       (Resolved \<lparr>status = 200, bodyText = ''payload''\<rparr>))
        (example_parse (JObject [(''data'', JArray [JObject [(''id'', JNumber 7)], JNull])]))))
        = JSON_stringify (success_body tenantId data))"
proof -
  let ?data = "JObject [(''data'', JArray [JObject [(''id'', JNumber 7)], JNull])]"
  let ?h = "handler example_env
      (example_fetch (Resolved \<lparr>status = 200, bodyText = ''token''\<rparr>)
                     (Resolved \<lparr>status = 200, bodyText = ''payload''\<rparr>))
      (example_parse ?data)"
  have s: "statusCode (snd ?h) = 200"
    by (simp add: handler_example_success)
  from success_count_and_technicians[rule_format, OF s]
  have e: "\<exists>tenantId data. body (snd ?h) = JSON_stringify (success_body tenantId data)"
    by blast
  have v: "snd ?h = \<lparr>statusCode = 200,
        body = JSON_stringify (JObject
          [(''pathUsed'', JString ''/settings/v2/tenant/42/technicians''),
           (''authMode'', JString ''bearer+appkey''),
           (''count'', JNumber 2),
           (''technicians'', JArray [JObject [(''id'', JNumber 7)], JNull])])\<rparr>"
    by (simp add: handler_example_success success_body_def opt_get_def property_def or_else_def
        truthy_def)
  from v e show ?thesis by (rule conjI)
qed

theorem success_technicians_counterexample:
  "snd (handler example_env
      (example_fetch (Resolved \<lparr>status = 200, bodyText = ''token''\<rparr>)
                     (Resolved \<lparr>status = 200, bodyText = ''payload''\<rparr>))
      (example_parse (JObject [(''data'', JBool True)])))
     = \<lparr>statusCode = 200,
        body = JSON_stringify (JObject
          [(''pathUsed'', JString ''/settings/v2/tenant/42/technicians''),
           (''authMode'', JString ''bearer+appkey''),
           (''count'', JNumber 0),
           (''technicians'', JBool True)])\<rparr>"
  by (simp add: handler_example_success success_body_def opt_get_def property_def or_else_def
      truthy_def)

section \<open>The adapter fails soft\<close>

text \<open>
  Claim C7, as amended. \<^verbatim>\<open>getTechnicians\<close> never throws: its promise is resolved. It
  resolves with the empty array when the request fails, when the status is outside
  200..299, when the body is not JSON, and when the payload has no \<open>technicians\<close> or a
  null or otherwise falsy one (a null payload included); it resolves with the payload's
  \<open>technicians\<close> when that is an array.
\<close>

theorem getTechnicians_fail_soft:
  "(\<exists>v. getTechnicians fetch parse = Resolved v) \<and>
   (\<forall>err. fetch functions_request = Rejected err \<longrightarrow>
      getTechnicians fetch parse = Resolved (JArray [])) \<and>
   (\<forall>res. fetch functions_request = Resolved res \<and> \<not> ok res \<longrightarrow>
      getTechnicians fetch parse = Resolved (JArray [])) \<and>
   (\<forall>res err. fetch functions_request = Resolved res \<and> ok res \<and> json parse res = Rejected err \<longrightarrow>
      getTechnicians fetch parse = Resolved (JArray [])) \<and>
   (\<forall>res data. fetch functions_request = Resolved res \<and> ok res \<and> json parse res = Resolved data \<longrightarrow>
      (\<not> truthy (opt_get data ''technicians'') \<longrightarrow>
         getTechnicians fetch parse = Resolved (JArray [])) \<and>
      (\<forall>ts. opt_get data ''technicians'' = JArray ts \<longrightarrow>
         getTechnicians fetch parse = Resolved (JArray ts)))"
proof (intro conjI allI impI)
  show "\<exists>v. getTechnicians fetch parse = Resolved v"
    by (cases "getTechnicians_try fetch parse") (simp_all add: getTechnicians_def)
next
  fix err assume "fetch functions_request = Rejected err"
  then show "getTechnicians fetch parse = Resolved (JArray [])"
    by (simp add: getTechnicians_def getTechnicians_try_def)
next
  fix res assume "fetch functions_request = Resolved res \<and> \<not> ok res"
  then show "getTechnicians fetch parse = Resolved (JArray [])"
    by (simp add: getTechnicians_def getTechnicians_try_def)
next
  fix res err
  assume "fetch functions_request = Resolved res \<and> ok res \<and> json parse res = Rejected err"
  then show "getTechnicians fetch parse = Resolved (JArray [])"
    by (simp add: getTechnicians_def getTechnicians_try_def)
next
  fix res data
  assume h: "fetch functions_request = Resolved res \<and> ok res \<and> json parse res = Resolved data"
  assume f: "\<not> truthy (opt_get data ''technicians'')"
  show "getTechnicians fetch parse = Resolved (JArray [])"
  proof (cases "data = JUndefined \<or> data = JNull")
    case True
    then show ?thesis using h by (auto simp: getTechnicians_def getTechnicians_try_def get_def)
  next
    case False
    then have "get data ''technicians'' = Resolved (opt_get data ''technicians'')"
      by (simp add: get_def opt_get_def)
    then show ?thesis
      using h f by (simp add: getTechnicians_def getTechnicians_try_def or_else_def)
  qed
next
  fix res data ts
  assume h: "fetch functions_request = Resolved res \<and> ok res \<and> json parse res = Resolved data"
  assume a: "opt_get data ''technicians'' = JArray ts"
  then have "\<not> (data = JUndefined \<or> data = JNull)" by (auto simp: opt_get_def)
  then have "get data ''technicians'' = Resolved (JArray ts)"
    using a by (simp add: get_def opt_get_def)
  then show "getTechnicians fetch parse = Resolved (JArray ts)"
    using h by (simp add: getTechnicians_def getTechnicians_try_def or_else_def truthy_simps)
qed

theorem getTechnicians_fail_soft_witness:
  "getTechnicians (example_fetch (Rejected (Thrown ''offline''))
                                 (Rejected (Thrown ''Failed to fetch'')))
                  (example_parse JNull) = Resolved (JArray []) \<and>
   getTechnicians (example_fetch (Rejected (Thrown ''offline''))
                                 (Resolved \<lparr>status = 502, bodyText = ''payload''\<rparr>))
                  (example_parse JNull) = Resolved (JArray []) \<and>
   getTechnicians (example_fetch (Rejected (Thrown ''offline''))
                                 (Resolved \<lparr>status = 200, bodyText = ''payload''\<rparr>))
                  (example_parse (JObject [(''technicians'', JArray [JObject [(''id'', JNumber 7)]])]))
     = Resolved (JArray [JObject [(''id'', JNumber 7)]])"
proof (intro conjI)
  let ?down = "example_fetch (Rejected (Thrown ''offline'')) (Rejected (Thrown ''Failed to fetch''))"
  have "?down functions_request = Rejected (Thrown ''Failed to fetch'')"
    by (simp add: fetch_example_functions)
  with getTechnicians_fail_soft[of ?down "example_parse JNull"]
  show "getTechnicians ?down (example_parse JNull) = Resolved (JArray [])"
    by blast
next
  let ?bad = "example_fetch (Rejected (Thrown ''offline''))
                (Resolved \<lparr>status = 502, bodyText = ''payload''\<rparr>)"
  have "?bad functions_request = Resolved \<lparr>status = 502, bodyText = ''payload''\<rparr>
        \<and> \<not> ok \<lparr>status = 502, bodyText = ''payload''\<rparr>"
    by (simp add: fetch_example_functions ok_def)
  with getTechnicians_fail_soft[of ?bad "example_parse JNull"]
  show "getTechnicians ?bad (example_parse JNull) = Resolved (JArray [])"
    by blast
next
  let ?good = "example_fetch (Rejected (Thrown ''offline''))
                (Resolved \<lparr>status = 200, bodyText = ''payload''\<rparr>)"
  let ?data = "JObject [(''technicians'', JArray [JObject [(''id'', JNumber 7)]])]"
  have h: "?good functions_request = Resolved \<lparr>status = 200, bodyText = ''payload''\<rparr>
        \<and> ok \<lparr>status = 200, bodyText = ''payload''\<rparr>
        \<and> json (example_parse ?data) \<lparr>status = 200, bodyText = ''payload''\<rparr> = Resolved ?data"
    by (simp add: fetch_example_functions ok_def json_def parse_example)
  have a: "opt_get ?data ''technicians'' = JArray [JObject [(''id'', JNumber 7)]]"
    by (simp add: opt_get_def property_def)
  from getTechnicians_fail_soft[of ?good "example_parse ?data"] h a
  show "getTechnicians ?good (example_parse ?data) = Resolved (JArray [JObject [(''id'', JNumber 7)]])"
    by blast
qed

theorem getTechnicians_counterexample:
  "getTechnicians (example_fetch (Rejected (Thrown ''offline''))
                                 (Resolved \<lparr>status = 200, bodyText = ''payload''\<rparr>))
                  (example_parse (JObject [(''technicians'', JString ''none'')]))
     = Resolved (JString ''none'')"
  by (simp add: getTechnicians_def getTechnicians_try_def fetch_example_functions ok_def json_def
      parse_example get_def property_def or_else_def truthy_def)

end
